theory Spec2Isabelle
  imports Complex_Main "HOL-Library.Word" "HOL-Library.Sublist"
begin

unbundle bit_operations_syntax

section \<open>JavaScript values used by the trackers\<close>

text \<open>
  Strings are lists of code units; the model covers code units below 256.  An absent
  (\<open>undefined\<close>) property is \<open>None\<close>.  Timestamps are milliseconds since the epoch: the
  ISO string written by \<open>toISOString()\<close> and read back by \<open>new Date(...)\<close> denotes the same
  instant.  One call of a tracker method reads the clock as the single value \<open>now\<close>.  The
  persisted state is taken to have the types the trackers write: dictionaries of records,
  of timestamp lists and of timestamps.
\<close>

type_synonym timestamp = int

text \<open>The exception the JavaScript runtime raises when a value that is not a function is
  called.\<close>

datatype error = TypeError

definition truthy :: "string option \<Rightarrow> bool" where
  "truthy v = (case v of None \<Rightarrow> False | Some s \<Rightarrow> s \<noteq> [])"

text \<open>\<open>v || ''\<close>\<close>

definition orEmpty :: "string option \<Rightarrow> string" where
  "orEmpty v = (case v of None \<Rightarrow> [] | Some s \<Rightarrow> s)"

text \<open>\<open>a || b\<close> on optional strings\<close>

definition orElse :: "string option \<Rightarrow> string option \<Rightarrow> string option" where
  "orElse a b = (if truthy a then a else b)"

definition code :: "char \<Rightarrow> nat" where
  "code c = of_char c"

definition toLowerChar :: "char \<Rightarrow> char" where
  "toLowerChar c =
     (if (65 \<le> code c \<and> code c \<le> 90) \<or> (192 \<le> code c \<and> code c \<le> 222 \<and> code c \<noteq> 215)
      then char_of (code c + 32) else c)"

definition toLowerCase :: "string \<Rightarrow> string" where
  "toLowerCase s = map toLowerChar s"

text \<open>The regular-expression classes \<open>\w\<close>, \<open>\s\<close> and \<open>[a-z0-9]\<close>.\<close>

definition isDigit :: "char \<Rightarrow> bool" where
  "isDigit c = (48 \<le> code c \<and> code c \<le> 57)"

definition isLowerAlnum :: "char \<Rightarrow> bool" where
  "isLowerAlnum c = ((97 \<le> code c \<and> code c \<le> 122) \<or> isDigit c)"

definition isWord :: "char \<Rightarrow> bool" where
  "isWord c = (isLowerAlnum c \<or> (65 \<le> code c \<and> code c \<le> 90) \<or> code c = 95)"

definition isSpace :: "char \<Rightarrow> bool" where
  "isSpace c = ((9 \<le> code c \<and> code c \<le> 13) \<or> code c = 32 \<or> code c = 160)"

text \<open>\<open>s.replace(/\s+/g, ' ')\<close>\<close>

function collapseSpaces :: "string \<Rightarrow> string" where
  "collapseSpaces [] = []"
| "collapseSpaces (c # cs) =
     (if isSpace c then CHR '' '' # collapseSpaces (dropWhile isSpace cs)
      else c # collapseSpaces cs)"
  by pat_completeness auto
termination
  by (relation "measure length") (auto simp: le_imp_less_Suc length_dropWhile_le)

definition trim :: "string \<Rightarrow> string" where
  "trim s = rev (dropWhile isSpace (rev (dropWhile isSpace s)))"

text \<open>\<open>hay.includes(needle)\<close>\<close>

fun str_includes :: "string \<Rightarrow> string \<Rightarrow> bool" where
  "str_includes [] needle = (needle = [])"
| "str_includes (c # cs) needle = (prefix needle (c # cs) \<or> str_includes cs needle)"

text \<open>\<open>s.split(sep)[0]\<close> for a one-character separator\<close>

definition splitFirst :: "char \<Rightarrow> string \<Rightarrow> string" where
  "splitFirst sep s = takeWhile (\<lambda>c. c \<noteq> sep) s"

subsection \<open>Objects as dictionaries\<close>

text \<open>
  An object used as a dictionary is the list of its own properties in the order
  \<open>Object.keys\<close> enumerates them.  Its prototype is \<open>Object.prototype\<close>: a bracket read
  \<open>m[k]\<close> of a name that is not an own property finds the member inherited from there,
  if there is one, and \<open>hasOwnProperty\<close>, \<open>Object.keys\<close> and \<open>Object.entries\<close> see the own
  properties only.
\<close>

type_synonym 'v obj = "(string \<times> 'v) list"

definition decimalValue :: "string \<Rightarrow> nat" where
  "decimalValue s = foldl (\<lambda>n c. 10 * n + (code c - 48)) 0 s"

text \<open>A property name that is an array index: such names are enumerated first, in
  numeric order, before all other names in insertion order.\<close>

definition isArrayIndex :: "string \<Rightarrow> bool" where
  "isArrayIndex k =
     (k \<noteq> [] \<and> list_all isDigit k \<and> (k = ''0'' \<or> hd k \<noteq> CHR ''0'')
      \<and> length k \<le> 10 \<and> decimalValue k \<le> 4294967294)"

text \<open>The own property of a name, as \<open>hasOwnProperty\<close> and \<open>Object.entries\<close> see it.\<close>

definition obj_get :: "'v obj \<Rightarrow> string \<Rightarrow> 'v option" where
  "obj_get m k = map_of m k"

definition obj_has :: "'v obj \<Rightarrow> string \<Rightarrow> bool" where
  "obj_has m k = (obj_get m k \<noteq> None)"

text \<open>The property names of \<open>Object.prototype\<close>.\<close>

definition objectPrototypeNames :: "string list" where
  "objectPrototypeNames =
     [''constructor'', ''__defineGetter__'', ''__defineSetter__'', ''hasOwnProperty'',
      ''__lookupGetter__'', ''__lookupSetter__'', ''isPrototypeOf'', ''propertyIsEnumerable'',
      ''toString'', ''valueOf'', ''__proto__'', ''toLocaleString'']"

definition inheritedName :: "string \<Rightarrow> bool" where
  "inheritedName k = (k \<in> set objectPrototypeNames)"

text \<open>The result of the bracket read \<open>m[k]\<close>: the own property, else the inherited member
  (a function, or \<open>Object.prototype\<close> itself for \<open>__proto__\<close>), else \<open>undefined\<close>.\<close>

datatype 'v lookup = Own 'v | Inherited | Missing

definition obj_read :: "'v obj \<Rightarrow> string \<Rightarrow> 'v lookup" where
  "obj_read m k =
     (case obj_get m k of
        Some v \<Rightarrow> Own v
      | None \<Rightarrow> if inheritedName k then Inherited else Missing)"

text \<open>\<open>if (m[k])\<close>: the values the trackers store (records, arrays, ISO strings) are truthy,
  and so are the inherited members.\<close>

definition obj_truthy :: "'v obj \<Rightarrow> string \<Rightarrow> bool" where
  "obj_truthy m k = (case obj_read m k of Missing \<Rightarrow> False | Own v \<Rightarrow> True | Inherited \<Rightarrow> True)"

fun obj_replace :: "'v obj \<Rightarrow> string \<Rightarrow> 'v \<Rightarrow> 'v obj" where
  "obj_replace [] k v = []"
| "obj_replace (p # ps) k v = (if fst p = k then (k, v) # ps else p # obj_replace ps k v)"

fun obj_insert_index :: "'v obj \<Rightarrow> string \<Rightarrow> 'v \<Rightarrow> 'v obj" where
  "obj_insert_index [] k v = [(k, v)]"
| "obj_insert_index (p # ps) k v =
     (if isArrayIndex (fst p) \<and> decimalValue (fst p) < decimalValue k
      then p # obj_insert_index ps k v else (k, v) # p # ps)"

text \<open>The assignment \<open>m[k] = v\<close> where it defines or updates an own property: always when
  \<open>k\<close> is not \<open>__proto__\<close>, and for \<open>__proto__\<close> when \<open>m\<close> has an own property of that name.\<close>

definition obj_set :: "'v obj \<Rightarrow> string \<Rightarrow> 'v \<Rightarrow> 'v obj" where
  "obj_set m k v =
     (if obj_has m k then obj_replace m k v
      else if isArrayIndex k then obj_insert_index m k v
      else m @ [(k, v)])"

text \<open>The assignment \<open>m[k] = v\<close> of a string \<open>v\<close>: the inherited setter of \<open>__proto__\<close> ignores
  a value that is not an object, so the assignment does nothing when \<open>k\<close> is \<open>__proto__\<close>
  and \<open>m\<close> has no own property of that name.\<close>

definition protoName :: string where
  "protoName = ''__proto__''"

definition obj_put :: "'v obj \<Rightarrow> string \<Rightarrow> 'v \<Rightarrow> 'v obj" where
  "obj_put m k v = (if k = protoName \<and> \<not> obj_has m k then m else obj_set m k v)"

section \<open>Approximate hasher\<close>

definition digit36 :: "nat \<Rightarrow> char" where
  "digit36 d = (if d < 10 then char_of (48 + d) else char_of (87 + d))"

text \<open>\<open>n.toString(36)\<close> for a non-negative integer\<close>

function toString36 :: "nat \<Rightarrow> string" where
  "toString36 n = (if n < 36 then [digit36 n] else toString36 (n div 36) @ [digit36 (n mod 36)])"
  by pat_completeness auto
termination
  by (relation "measure id") auto

declare toString36.simps [simp del]

text \<open>One round of the loop of \<open>simpleHash\<close>: \<open>hash = ((hash << 5) - hash) + char\<close>
  followed by \<open>hash = hash & hash\<close>, which reduces to a signed 32-bit integer.\<close>

definition hashStep :: "32 word \<Rightarrow> char \<Rightarrow> 32 word" where
  "hashStep hash c = (push_bit 5 hash - hash) + of_nat (code c)"

definition simpleHash :: "string \<Rightarrow> string" where
  "simpleHash str = toString36 (nat \<bar>sint (foldl hashStep 0 str)\<bar>)"

definition normalizeText :: "string \<Rightarrow> string" where
  "normalizeText s =
     trim (collapseSpaces (filter (\<lambda>c. isWord c \<or> isSpace c) (toLowerCase s)))"

definition generateContentHash :: "string option \<Rightarrow> string" where
  "generateContentHash content =
     (if \<not> truthy content then [] else simpleHash (normalizeText (orEmpty content)))"

definition generateTitleHash :: "string option \<Rightarrow> string" where
  "generateTitleHash title =
     (if \<not> truthy title then [] else simpleHash (normalizeText (orEmpty title)))"

fun countMatches :: "string \<Rightarrow> string \<Rightarrow> nat" where
  "countMatches (a # as) (b # bs) = (if a = b then 1 else 0) + countMatches as bs"
| "countMatches _ _ = 0"

definition calculateSimilarity :: "string \<Rightarrow> string \<Rightarrow> rat" where
  "calculateSimilarity hash1 hash2 =
     (let len1 = length hash1; len2 = length hash2; maxLen = max len1 len2
      in if maxLen = 0 then 1
         else of_nat (countMatches hash1 hash2) / of_nat maxLen)"

section \<open>Deduplication tracker\<close>

record signal =
  url :: "string option"
  link :: "string option"
  title :: "string option"
  judul :: "string option"
  source :: "string option"
  repo :: "string option"
  content :: "string option"

text \<open>The value stored under a key of \<open>published\<close>, \<open>content_hashes\<close> or \<open>title_hashes\<close>.\<close>

record tracker_record =
  timestamp :: timestamp
  rec_source :: "string option"
  rec_title :: "string option"
  rec_link :: "string option"
  status :: "string option"

record dedup_tracker =
  published :: "tracker_record obj"
  content_hashes :: "tracker_record obj"
  title_hashes :: "tracker_record obj"
  source_hashes :: "timestamp list obj"

text \<open>The tracker \<open>loadTracker\<close> returns when no file has been persisted.\<close>

definition emptyTracker :: dedup_tracker where
  "emptyTracker = \<lparr>published = [], content_hashes = [], title_hashes = [], source_hashes = []\<rparr>"

record similarity_check =
  sim_isDuplicate :: bool
  similarity :: rat
  sim_reason :: "string option"
  original :: "tracker_record lookup"

record frequency_check =
  freq_isDuplicate :: bool
  freq_reason :: "string option"
  count :: nat
  limit :: "int option"

record dedup_details =
  urlProcessed :: bool
  alreadyPublished :: bool
  contentSimilarity :: "similarity_check option"
  titleSimilarity :: "similarity_check option"
  sourceFrequency :: "frequency_check option"

record dedup_result =
  isDuplicate :: bool
  reasons :: "string list"
  details :: dedup_details

record dedup_options =
  contentSimilarityThreshold :: rat
  titleSimilarityThreshold :: rat
  maxSourcePerHour :: int
  checkContent :: bool
  checkTitle :: bool
  checkSource :: bool
  checkAlreadyPublishedOpt :: bool
  checkURLProcessed :: bool

definition defaultOptions :: dedup_options where
  "defaultOptions =
     \<lparr>contentSimilarityThreshold = 4 / 5, titleSimilarityThreshold = 9 / 10,
      maxSourcePerHour = 3, checkContent = True, checkTitle = True, checkSource = True,
      checkAlreadyPublishedOpt = True, checkURLProcessed = True\<rparr>"

text \<open>The loop over \<open>Object.keys\<close> of a hash index: the first stored hash whose similarity to
  the candidate reaches the threshold.\<close>

fun scanSimilar :: "string \<Rightarrow> rat \<Rightarrow> tracker_record obj \<Rightarrow> (rat \<times> tracker_record) option" where
  "scanSimilar h threshold [] = None"
| "scanSimilar h threshold ((existingHash, v) # rest) =
     (let sim = calculateSimilarity h existingHash
      in if sim \<ge> threshold then Some (sim, v) else scanSimilar h threshold rest)"

definition noSimilarity :: similarity_check where
  "noSimilarity = \<lparr>sim_isDuplicate = False, similarity = 0, sim_reason = None, original = Missing\<rparr>"

definition checkContentSimilarity :: "dedup_tracker \<Rightarrow> string option \<Rightarrow> rat \<Rightarrow> similarity_check" where
  "checkContentSimilarity tr c threshold =
     (let contentHash = generateContentHash c
      in case obj_read (content_hashes tr) contentHash of
           Own orig \<Rightarrow> \<lparr>sim_isDuplicate = True, similarity = 1,
                         sim_reason = Some ''exact_content_match'', original = Own orig\<rparr>
         | Inherited \<Rightarrow> \<lparr>sim_isDuplicate = True, similarity = 1,
                          sim_reason = Some ''exact_content_match'', original = Inherited\<rparr>
         | Missing \<Rightarrow>
            (case scanSimilar contentHash threshold (content_hashes tr) of
               Some (sim, orig) \<Rightarrow> \<lparr>sim_isDuplicate = True, similarity = sim,
                                     sim_reason = Some ''similar_content'', original = Own orig\<rparr>
             | None \<Rightarrow> noSimilarity))"

definition checkTitleSimilarity :: "dedup_tracker \<Rightarrow> string option \<Rightarrow> rat \<Rightarrow> similarity_check" where
  "checkTitleSimilarity tr t threshold =
     (let titleHash = generateTitleHash t
      in case obj_read (title_hashes tr) titleHash of
           Own orig \<Rightarrow> \<lparr>sim_isDuplicate = True, similarity = 1,
                         sim_reason = Some ''exact_title_match'', original = Own orig\<rparr>
         | Inherited \<Rightarrow> \<lparr>sim_isDuplicate = True, similarity = 1,
                          sim_reason = Some ''exact_title_match'', original = Inherited\<rparr>
         | Missing \<Rightarrow>
            (case scanSimilar titleHash threshold (title_hashes tr) of
               Some (sim, orig) \<Rightarrow> \<lparr>sim_isDuplicate = True, similarity = sim,
                                     sim_reason = Some ''similar_title'', original = Own orig\<rparr>
             | None \<Rightarrow> noSimilarity))"

text \<open>The count of recent posts in a source's history and the verdict on it.\<close>

definition frequencyOf :: "timestamp list \<Rightarrow> int \<Rightarrow> timestamp \<Rightarrow> frequency_check" where
  "frequencyOf sourceHistory maxPerHour oneHourAgo =
     (let recentPosts = filter (\<lambda>t. t > oneHourAgo) sourceHistory
      in if int (length recentPosts) \<ge> maxPerHour
         then \<lparr>freq_isDuplicate = True, freq_reason = Some ''source_frequency_limit'',
               count = length recentPosts, limit = Some maxPerHour\<rparr>
         else \<lparr>freq_isDuplicate = False, freq_reason = None,
               count = length recentPosts, limit = None\<rparr>)"

text \<open>\<open>sourceHistory = source_hashes[sourceKey] || []\<close> is the stored list, the empty list
  when the read gives \<open>undefined\<close>, and the inherited member when the key names one; that
  member has no \<open>filter\<close> method, and calling it raises \<open>TypeError\<close>.\<close>

definition checkSourceFrequency ::
  "dedup_tracker \<Rightarrow> string \<Rightarrow> int \<Rightarrow> timestamp \<Rightarrow> error + frequency_check" where
  "checkSourceFrequency tr src maxPerHour now =
     (let oneHourAgo = now - 60 * 60 * 1000;
          sourceKey = trim (toLowerCase src)
      in case obj_read (source_hashes tr) sourceKey of
           Own sourceHistory \<Rightarrow> Inr (frequencyOf sourceHistory maxPerHour oneHourAgo)
         | Missing \<Rightarrow> Inr (frequencyOf [] maxPerHour oneHourAgo)
         | Inherited \<Rightarrow> Inl TypeError)"

definition generateSignalKey :: "signal \<Rightarrow> string" where
  "generateSignalKey s =
     (let src = toLowerCase (orEmpty (source s));
          lnk = toLowerCase (orEmpty (link s));
          ttl = filter isLowerAlnum (toLowerCase (orEmpty (title s)))
      in src @ '':'' @ lnk @ '':'' @ ttl)"

text \<open>\<open>published.hasOwnProperty(signalKey)\<close>\<close>

definition checkAlreadyPublished :: "dedup_tracker \<Rightarrow> signal \<Rightarrow> bool" where
  "checkAlreadyPublished tr s = obj_has (published tr) (generateSignalKey s)"

definition cleanUrl :: "string \<Rightarrow> string" where
  "cleanUrl u = toLowerCase (splitFirst CHR ''#'' (splitFirst CHR ''?'' u))"

text \<open>\<open>value.link && value.link.toLowerCase().includes(cleanUrl)\<close>\<close>

definition linkIncludes :: "string \<Rightarrow> tracker_record \<Rightarrow> bool" where
  "linkIncludes c v = (truthy (rec_link v) \<and> str_includes (toLowerCase (orEmpty (rec_link v))) c)"

text \<open>The loop over \<open>Object.entries\<close>.\<close>

fun scanLinks :: "string \<Rightarrow> tracker_record obj \<Rightarrow> bool" where
  "scanLinks c [] = False"
| "scanLinks c ((k, v) # rest) = (if linkIncludes c v then True else scanLinks c rest)"

definition checkURLAlreadyProcessed :: "dedup_tracker \<Rightarrow> string \<Rightarrow> bool" where
  "checkURLAlreadyProcessed tr u =
     (if u = [] then False
      else let c = cleanUrl u
           in if scanLinks c (published tr) then True
              else if scanLinks c (content_hashes tr) then True
              else False)"

definition noDetails :: dedup_details where
  "noDetails = \<lparr>urlProcessed = False, alreadyPublished = False, contentSimilarity = None,
                titleSimilarity = None, sourceFrequency = None\<rparr>"

text \<open>\<open>results.isDuplicate = true; results.reasons.push(r)\<close>\<close>

definition flag :: "string option \<Rightarrow> dedup_result \<Rightarrow> dedup_result" where
  "flag r results = results\<lparr>isDuplicate := True, reasons := reasons results @ [orEmpty r]\<rparr>"

definition contentStep :: "dedup_tracker \<Rightarrow> signal \<Rightarrow> dedup_options \<Rightarrow> dedup_result \<Rightarrow> dedup_result" where
  "contentStep tr s opts results =
     (if checkContent opts \<and> truthy (content s)
      then let contentCheck = checkContentSimilarity tr (content s) (contentSimilarityThreshold opts)
           in if sim_isDuplicate contentCheck
              then (flag (sim_reason contentCheck) results)
                     \<lparr>details := (details results)\<lparr>contentSimilarity := Some contentCheck\<rparr>\<rparr>
              else results
      else results)"

definition titleStep :: "dedup_tracker \<Rightarrow> signal \<Rightarrow> dedup_options \<Rightarrow> dedup_result \<Rightarrow> dedup_result" where
  "titleStep tr s opts results =
     (if checkTitle opts \<and> truthy (title s)
      then let titleCheck = checkTitleSimilarity tr (title s) (titleSimilarityThreshold opts)
           in if sim_isDuplicate titleCheck
              then (flag (sim_reason titleCheck) results)
                     \<lparr>details := (details results)\<lparr>titleSimilarity := Some titleCheck\<rparr>\<rparr>
              else results
      else results)"

text \<open>The source check is the one step of \<open>checkDeduplication\<close> that can raise.\<close>

definition sourceStep ::
  "dedup_tracker \<Rightarrow> signal \<Rightarrow> dedup_options \<Rightarrow> timestamp \<Rightarrow> dedup_result \<Rightarrow> error + dedup_result" where
  "sourceStep tr s opts now results =
     (if checkSource opts \<and> truthy (source s)
      then case checkSourceFrequency tr (orEmpty (source s)) (maxSourcePerHour opts) now of
             Inl e \<Rightarrow> Inl e
           | Inr sourceCheck \<Rightarrow>
               Inr (if freq_isDuplicate sourceCheck
                    then (flag (freq_reason sourceCheck) results)
                           \<lparr>details := (details results)\<lparr>sourceFrequency := Some sourceCheck\<rparr>\<rparr>
                    else results)
      else Inr results)"

definition checkDeduplication ::
  "dedup_tracker \<Rightarrow> signal \<Rightarrow> dedup_options \<Rightarrow> timestamp \<Rightarrow> error + dedup_result" where
  "checkDeduplication tr s opts now =
     (let results = \<lparr>isDuplicate = False, reasons = [], details = noDetails\<rparr>
      in if checkURLProcessed opts \<and> truthy (link s)
            \<and> checkURLAlreadyProcessed tr (orEmpty (link s))
         then Inr ((flag (Some ''url_already_processed'') results)
                     \<lparr>details := (details results)\<lparr>urlProcessed := True\<rparr>\<rparr>)
         else if checkAlreadyPublishedOpt opts \<and> checkAlreadyPublished tr s
         then Inr ((flag (Some ''already_published'') results)
                     \<lparr>details := (details results)\<lparr>alreadyPublished := True\<rparr>\<rparr>)
         else sourceStep tr s opts now (titleStep tr s opts (contentStep tr s opts results)))"

text \<open>The block of \<open>markAsPublished\<close> that adds to the source frequency tracking:
  \<open>if (!source_hashes[sourceKey]) source_hashes[sourceKey] = []\<close>, then
  \<open>source_hashes[sourceKey].push(now)\<close>, then the list is replaced by its entries of the
  last 24 hours.  When the key names an inherited member the first read is truthy, no
  list is created, and the call of \<open>push\<close> raises \<open>TypeError\<close>.\<close>

definition recordSourceTime ::
  "timestamp list obj \<Rightarrow> string \<Rightarrow> timestamp \<Rightarrow> error + timestamp list obj" where
  "recordSourceTime sh sourceKey now =
     (let sh0 = (case obj_read sh sourceKey of
                   Missing \<Rightarrow> obj_set sh sourceKey []
                 | Own h \<Rightarrow> sh
                 | Inherited \<Rightarrow> sh)
      in case obj_read sh0 sourceKey of
           Own h \<Rightarrow>
             (let sh1 = obj_set sh0 sourceKey (h @ [now]);
                  oneDayAgo = now - 24 * 60 * 60 * 1000
              in case obj_read sh1 sourceKey of
                   Own h1 \<Rightarrow> Inr (obj_set sh1 sourceKey (filter (\<lambda>t. t > oneDayAgo) h1))
                 | Inherited \<Rightarrow> Inl TypeError
                 | Missing \<Rightarrow> Inl TypeError)
         | Inherited \<Rightarrow> Inl TypeError
         | Missing \<Rightarrow> Inl TypeError)"

text \<open>\<open>markAsPublished\<close> returns the exception it raised, if any, and the tracker as the call
  leaves it.  The keys it assigns records to contain a colon (the signal key) or are
  base-36 numerals of at most six characters (the hashes), so none of them is
  \<open>__proto__\<close>.\<close>

definition markAsPublished :: "dedup_tracker \<Rightarrow> signal \<Rightarrow> timestamp \<Rightarrow> error option \<times> dedup_tracker" where
  "markAsPublished tr s now =
     (let signalKey = generateSignalKey s;
          tr1 = tr\<lparr>published := obj_set (published tr) signalKey
                  \<lparr>timestamp = now, rec_source = source s, rec_title = title s,
                   rec_link = link s, status = None\<rparr>\<rparr>;
          tr2 = (if truthy (content s)
                 then tr1\<lparr>content_hashes := obj_set (content_hashes tr1) (generateContentHash (content s))
                          \<lparr>timestamp = now, rec_source = source s, rec_title = title s,
                           rec_link = link s, status = None\<rparr>\<rparr>
                 else tr1);
          tr3 = (if truthy (title s)
                 then tr2\<lparr>title_hashes := obj_set (title_hashes tr2) (generateTitleHash (title s))
                          \<lparr>timestamp = now, rec_source = source s, rec_title = None,
                           rec_link = link s, status = None\<rparr>\<rparr>
                 else tr2)
      in if truthy (source s)
         then case recordSourceTime (source_hashes tr3) (trim (toLowerCase (orEmpty (source s)))) now of
                Inl e \<Rightarrow> (Some e, tr3)
              | Inr sh \<Rightarrow> (None, tr3\<lparr>source_hashes := sh\<rparr>)
         else (None, tr3))"

definition markAsProcessed :: "dedup_tracker \<Rightarrow> signal \<Rightarrow> timestamp \<Rightarrow> dedup_tracker" where
  "markAsProcessed tr s now =
     (let signalKey = generateSignalKey s;
          tr1 = tr\<lparr>published := obj_set (published tr) signalKey
                  \<lparr>timestamp = now, rec_source = source s, rec_title = title s,
                   rec_link = link s, status = Some ''processed''\<rparr>\<rparr>
      in if truthy (content s)
         then tr1\<lparr>content_hashes := obj_set (content_hashes tr1) (generateContentHash (content s))
                  \<lparr>timestamp = now, rec_source = source s, rec_title = title s,
                   rec_link = link s, status = Some ''processed''\<rparr>\<rparr>
         else tr1)"

text \<open>The writes a tracker instance can receive during its lifetime, and the tracker each
  leaves behind, whether the call returned or raised.\<close>

datatype dedup_op = MarkPublished signal timestamp | MarkProcessed signal timestamp

fun applyOp :: "dedup_tracker \<Rightarrow> dedup_op \<Rightarrow> dedup_tracker" where
  "applyOp tr (MarkPublished s now) = snd (markAsPublished tr s now)"
| "applyOp tr (MarkProcessed s now) = markAsProcessed tr s now"

definition applyOps :: "dedup_tracker \<Rightarrow> dedup_op list \<Rightarrow> dedup_tracker" where
  "applyOps tr ops = foldl applyOp tr ops"






section \<open>Collection tracker\<close>

text \<open>What the platform's \<open>URL\<close> class exposes of a parsed address.  The parser itself is a
  parameter \<open>URL\<close> of the functions below; \<open>None\<close> is its \<open>TypeError\<close> on malformed input.\<close>

record url_obj =
  protocol :: string
  host :: string
  pathname :: string
  searchParams :: "(string \<times> string) list"

type_synonym url_parser = "string \<Rightarrow> url_obj option"

definition paramsToRemove :: "string list" where
  "paramsToRemove = [''utm_source'', ''utm_medium'', ''utm_campaign'', ''utm_content'',
                     ''utm_term'', ''ref'', ''source'']"

text \<open>\<open>urlObj.searchParams.delete(param)\<close>\<close>

definition deleteParam :: "string \<Rightarrow> url_obj \<Rightarrow> url_obj" where
  "deleteParam param urlObj =
     urlObj\<lparr>searchParams := filter (\<lambda>(k, v). k \<noteq> param) (searchParams urlObj)\<rparr>"

definition normalizeUrl :: "url_parser \<Rightarrow> string \<Rightarrow> string" where
  "normalizeUrl URL u =
     (if u = [] then []
      else case URL u of
             None \<Rightarrow> u
           | Some parsed \<Rightarrow>
               (let urlObj = fold deleteParam paramsToRemove parsed;
                    path = pathname urlObj;
                    path' = (if path \<noteq> [] \<and> last path = CHR ''/'' \<and> length path > 1
                             then butlast path else path)
                in protocol urlObj @ ''//'' @ host urlObj @ path'))"

definition normalizeTitle :: "string \<Rightarrow> string" where
  "normalizeTitle t = (if t = [] then [] else normalizeText t)"

record collection_tracker =
  global_collected :: "timestamp obj option"
  today_collected :: "timestamp obj option"

text \<open>The tracker \<open>loadTracker\<close> returns when neither file exists: both scopes are \<open>{}\<close>.\<close>

definition freshTracker :: collection_tracker where
  "freshTracker = \<lparr>global_collected = None, today_collected = None\<rparr>"

text \<open>The four keys built at the head of \<open>isAlreadyCollected\<close> and of \<open>markAsCollected\<close>.\<close>

definition collectionKeys :: "url_parser \<Rightarrow> signal \<Rightarrow> string list" where
  "collectionKeys URL s =
     (let u = orEmpty (orElse (url s) (link s));
          t = orEmpty (orElse (title s) (judul s));
          src = (if truthy (orElse (source s) (repo s)) then orEmpty (orElse (source s) (repo s))
                 else ''Unknown'');
          normalizedUrl = normalizeUrl URL u;
          normalizedTitle = normalizeTitle t
      in [toLowerCase (src @ '':'' @ normalizedUrl @ '':'' @ normalizedTitle),
          toLowerCase (src @ '':'' @ normalizedUrl),
          toLowerCase normalizedTitle,
          toLowerCase (src @ '':'' @ normalizedTitle)])"

definition msPerDay :: int where
  "msPerDay = 1000 * 60 * 60 * 24"

text \<open>\<open>if (today.collected[key]) return true\<close>, for each key\<close>

fun scanToday :: "timestamp obj \<Rightarrow> string list \<Rightarrow> bool" where
  "scanToday m [] = False"
| "scanToday m (k # ks) = (if obj_truthy m k then True else scanToday m ks)"

text \<open>The global scan converts what it reads to a date.  An inherited member is no date:
  \<open>new Date(...)\<close> of it is invalid, the difference in days is \<open>NaN\<close>, and the comparison
  with 7 is false.\<close>

fun scanGlobal :: "timestamp obj \<Rightarrow> timestamp \<Rightarrow> string list \<Rightarrow> bool" where
  "scanGlobal m now [] = False"
| "scanGlobal m now (k # ks) =
     (case obj_read m k of
        Own collectedDate \<Rightarrow>
          (if now - collectedDate \<le> 7 * msPerDay then True else scanGlobal m now ks)
      | Inherited \<Rightarrow> scanGlobal m now ks
      | Missing \<Rightarrow> scanGlobal m now ks)"

definition isAlreadyCollected :: "url_parser \<Rightarrow> collection_tracker \<Rightarrow> signal \<Rightarrow> timestamp \<Rightarrow> bool" where
  "isAlreadyCollected URL tr s now =
     (let keys = collectionKeys URL s
      in if (case today_collected tr of Some m \<Rightarrow> scanToday m keys | None \<Rightarrow> False) then True
         else if (case global_collected tr of Some m \<Rightarrow> scanGlobal m now keys | None \<Rightarrow> False)
         then True
         else False)"

text \<open>The time zone of the process: the offset of local time from UTC at an instant, and
  the offset by which a local time is converted back to UTC.\<close>

record timezone =
  utcOffset :: "timestamp \<Rightarrow> int"
  localOffset :: "int \<Rightarrow> int"

text \<open>\<open>d = new Date(); d.setDate(d.getDate() - 30)\<close>: the date is moved back by thirty
  calendar days of local time, keeping the local time of day, and converted back.\<close>

definition thirtyDaysAgo :: "timezone \<Rightarrow> timestamp \<Rightarrow> timestamp" where
  "thirtyDaysAgo tz now =
     (let localNow = now + utcOffset tz now;
          localThen = localNow - 30 * msPerDay
      in localThen - localOffset tz localThen)"

definition cleanupOldEntries :: "timezone \<Rightarrow> collection_tracker \<Rightarrow> timestamp \<Rightarrow> collection_tracker" where
  "cleanupOldEntries tz tr now =
     (let cutoff = thirtyDaysAgo tz now
      in case global_collected tr of
           None \<Rightarrow> tr
         | Some m \<Rightarrow>
             (let keysToDelete = map fst (filter (\<lambda>(k, ts). ts < cutoff) m)
              in tr\<lparr>global_collected := Some (filter (\<lambda>(k, ts). k \<notin> set keysToDelete) m)\<rparr>))"

definition markAsCollected ::
  "url_parser \<Rightarrow> timezone \<Rightarrow> collection_tracker \<Rightarrow> signal \<Rightarrow> timestamp \<Rightarrow> collection_tracker" where
  "markAsCollected URL tz tr s now =
     (let keys = collectionKeys URL s;
          today0 = (case today_collected tr of None \<Rightarrow> [] | Some m \<Rightarrow> m);
          global0 = (case global_collected tr of None \<Rightarrow> [] | Some m \<Rightarrow> m);
          tr' = \<lparr>global_collected = Some (fold (\<lambda>k m. obj_put m k now) keys global0),
                 today_collected = Some (fold (\<lambda>k m. obj_put m k now) keys today0)\<rparr>
      in cleanupOldEntries tz tr' now)"

record collection_filter =
  newSignals :: "signal list"
  skippedSignals :: "signal list"
  tracker_after :: collection_tracker

fun collectLoop ::
  "url_parser \<Rightarrow> timezone \<Rightarrow> timestamp \<Rightarrow> signal list \<Rightarrow> collection_filter \<Rightarrow> collection_filter" where
  "collectLoop URL tz now [] acc = acc"
| "collectLoop URL tz now (s # rest) acc =
     (if isAlreadyCollected URL (tracker_after acc) s now
      then collectLoop URL tz now rest (acc\<lparr>skippedSignals := skippedSignals acc @ [s]\<rparr>)
      else collectLoop URL tz now rest
             (acc\<lparr>newSignals := newSignals acc @ [s],
                  tracker_after := markAsCollected URL tz (tracker_after acc) s now\<rparr>))"

definition filterNewSignals ::
  "url_parser \<Rightarrow> timezone \<Rightarrow> collection_tracker \<Rightarrow> signal list \<Rightarrow> timestamp \<Rightarrow> collection_filter" where
  "filterNewSignals URL tz tr signals now =
     collectLoop URL tz now signals \<lparr>newSignals = [], skippedSignals = [], tracker_after = tr\<rparr>"

section \<open>Reference notions and sample data\<close>

text \<open>The similarity measure in the words of the specification: the number of positions
  below the shorter length at which the two hashes agree.\<close>

definition matchingPositions :: "string \<Rightarrow> string \<Rightarrow> nat" where
  "matchingPositions h1 h2 =
     length (filter (\<lambda>i. h1 ! i = h2 ! i) [0..<min (length h1) (length h2)])"

text \<open>\<open>{source: src, link: lnk, title: ttl}\<close>\<close>

definition mkSignal :: "string \<Rightarrow> string \<Rightarrow> string \<Rightarrow> signal" where
  "mkSignal src lnk ttl =
     \<lparr>url = None, link = Some lnk, title = Some ttl, judul = None, source = Some src,
      repo = None, content = None\<rparr>"

text \<open>\<open>{source: src, title: ttl}\<close>, a signal without a link\<close>

definition mkUnlinked :: "string \<Rightarrow> string \<Rightarrow> signal" where
  "mkUnlinked src ttl =
     \<lparr>url = None, link = None, title = Some ttl, judul = None, source = Some src,
      repo = None, content = None\<rparr>"

text \<open>The results of the platform's URL parser on the addresses used in the examples
  below; the general theorems hold for every parser.\<close>

definition URL_sample :: url_parser where
  "URL_sample u =
     (if u = ''http://x.com/1''
      then Some \<lparr>protocol = ''http:'', host = ''x.com'', pathname = ''/1'', searchParams = []\<rparr>
      else if u = ''http://x.com/1?utm_source=foo''
      then Some \<lparr>protocol = ''http:'', host = ''x.com'', pathname = ''/1'',
                  searchParams = [(''utm_source'', ''foo'')]\<rparr>
      else if u = ''http://x.com/1?id=5''
      then Some \<lparr>protocol = ''http:'', host = ''x.com'', pathname = ''/1'',
                  searchParams = [(''id'', ''5'')]\<rparr>
      else if u = ''http://y.com/2''
      then Some \<lparr>protocol = ''http:'', host = ''y.com'', pathname = ''/2'', searchParams = []\<rparr>
      else None)"

text \<open>Two time zones for the examples: UTC, and Central European Time in 2026
  (\<open>Europe/Berlin\<close>), where summer time, two hours ahead of UTC, lasts from 29 March
  01:00 UTC to 25 October 01:00 UTC, that is from 03:00 to 03:00 local time, and the
  rest of the year is one hour ahead.\<close>

definition tzUTC :: timezone where
  "tzUTC = \<lparr>utcOffset = (\<lambda>t. 0), localOffset = (\<lambda>t. 0)\<rparr>"

definition tzBerlin2026 :: timezone where
  "tzBerlin2026 =
     \<lparr>utcOffset = (\<lambda>t. if 1774746000000 \<le> t \<and> t < 1792890000000 then 7200000 else 3600000),
      localOffset = (\<lambda>t. if 1774753200000 \<le> t \<and> t < 1792897200000 then 7200000 else 3600000)\<rparr>"

text \<open>All five checks of \<open>checkDeduplication\<close> are switched on.\<close>

definition allChecks :: "dedup_options \<Rightarrow> bool" where
  "allChecks opts =
     (checkContent opts \<and> checkTitle opts \<and> checkSource opts
      \<and> checkAlreadyPublishedOpt opts \<and> checkURLProcessed opts)"

text \<open>The signal an operation writes.\<close>

fun opSignal :: "dedup_op \<Rightarrow> signal" where
  "opSignal (MarkPublished s now) = s"
| "opSignal (MarkProcessed s now) = s"

text \<open>The \<open>link\<close> fields stored in \<open>published\<close> and in \<open>content_hashes\<close>.\<close>

definition storedLinks :: "dedup_tracker \<Rightarrow> string option list" where
  "storedLinks tr = map (\<lambda>(k, v). rec_link v) (published tr) @ map (\<lambda>(k, v). rec_link v) (content_hashes tr)"

text \<open>The key under which a signal's source is tracked, and whether reading it from
  \<open>source_hashes\<close> gives an inherited member instead of a list.\<close>

definition sourceKey :: "signal \<Rightarrow> string" where
  "sourceKey s = trim (toLowerCase (orEmpty (source s)))"

definition sourceInherited :: "dedup_tracker \<Rightarrow> signal \<Rightarrow> bool" where
  "sourceInherited tr s =
     (truthy (source s)
      \<and> (case obj_read (source_hashes tr) (sourceKey s) of
            Inherited \<Rightarrow> True | Own h \<Rightarrow> False | Missing \<Rightarrow> False))"

text \<open>The list a source's key holds, empty when the key is not an own property.\<close>

definition historyOf :: "timestamp list obj \<Rightarrow> string \<Rightarrow> timestamp list" where
  "historyOf m k = (case obj_get m k of None \<Rightarrow> [] | Some h \<Rightarrow> h)"

text \<open>The soft checks of \<open>checkDeduplication\<close>: each is made only when the signal has the
  field it looks at, and fires when its result says duplicate.\<close>

definition contentFires :: "dedup_tracker \<Rightarrow> signal \<Rightarrow> dedup_options \<Rightarrow> bool" where
  "contentFires tr s opts =
     (truthy (content s)
      \<and> sim_isDuplicate (checkContentSimilarity tr (content s) (contentSimilarityThreshold opts)))"

definition titleFires :: "dedup_tracker \<Rightarrow> signal \<Rightarrow> dedup_options \<Rightarrow> bool" where
  "titleFires tr s opts =
     (truthy (title s)
      \<and> sim_isDuplicate (checkTitleSimilarity tr (title s) (titleSimilarityThreshold opts)))"

definition sourceFires :: "dedup_tracker \<Rightarrow> signal \<Rightarrow> dedup_options \<Rightarrow> timestamp \<Rightarrow> bool" where
  "sourceFires tr s opts now =
     (truthy (source s)
      \<and> int (length (filter (\<lambda>t. t > now - 60 * 60 * 1000)
                        (historyOf (source_hashes tr) (sourceKey s))))
          \<ge> maxSourcePerHour opts)"

text \<open>The verdict of \<open>checkDeduplication\<close> on a signal, when it returns one.\<close>

definition judgedDuplicate :: "dedup_tracker \<Rightarrow> dedup_options \<Rightarrow> timestamp \<Rightarrow> signal \<Rightarrow> bool" where
  "judgedDuplicate tr opts now s =
     (case checkDeduplication tr s opts now of Inr r \<Rightarrow> isDuplicate r | Inl e \<Rightarrow> False)"

definition judgedNew :: "dedup_tracker \<Rightarrow> dedup_options \<Rightarrow> timestamp \<Rightarrow> signal \<Rightarrow> bool" where
  "judgedNew tr opts now s =
     (case checkDeduplication tr s opts now of Inr r \<Rightarrow> \<not> isDuplicate r | Inl e \<Rightarrow> False)"


text \<open>The default options with the source limit lowered to one post per hour.\<close>

definition strictOptions :: dedup_options where
  "strictOptions = defaultOptions\<lparr>maxSourcePerHour := 1\<rparr>"

text \<open>The title a signal is collected under: \<open>signal.title || signal.judul || ''\<close>.\<close>

definition signalTitle :: "signal \<Rightarrow> string" where
  "signalTitle s = orEmpty (orElse (title s) (judul s))"

text \<open>A persisted tracker whose global scope holds one entry, written at time 0, and one
  whose entry is 30 days and 30 minutes older than 3 November 2026, 12:00 UTC.\<close>

definition agedTracker :: collection_tracker where
  "agedTracker = \<lparr>global_collected = Some [(''old entry'', 0)], today_collected = None\<rparr>"

definition octoberTracker :: collection_tracker where
  "octoberTracker =
     \<lparr>global_collected = Some [(''old entry'', 1793707200000 - 30 * msPerDay - 1800000)],
      today_collected = None\<rparr>"

text \<open>First occurrence wins, in terms of keys alone: a signal of a batch is new unless one
  of its four keys is among the keys of the signals taken as new before it.  The result
  is the pair of the new and the skipped signals.\<close>

fun firstWins :: "url_parser \<Rightarrow> string list \<Rightarrow> signal list \<Rightarrow> signal list \<times> signal list" where
  "firstWins URL seen [] = ([], [])"
| "firstWins URL seen (s # rest) =
     (if list_ex (\<lambda>k. k \<in> set seen) (collectionKeys URL s)
      then (fst (firstWins URL seen rest), s # snd (firstWins URL seen rest))
      else (s # fst (firstWins URL (collectionKeys URL s @ seen) rest),
            snd (firstWins URL (collectionKeys URL s @ seen) rest)))"

text \<open>None of the four keys of a signal is the name of a member every object inherits.\<close>

definition plainKeys :: "url_parser \<Rightarrow> signal \<Rightarrow> bool" where
  "plainKeys URL s = (\<not> list_ex inheritedName (collectionKeys URL s))"

section \<open>Properties of optional strings and dictionary objects\<close>

lemma orEmpty_Some [simp]: "orEmpty (Some x) = x"
  by (simp add: orEmpty_def)


lemma obj_get_replace:
  "obj_get (obj_replace m k v) k' = (if k' = k \<and> obj_has m k then Some v else obj_get m k')"
  by (induction m) (auto simp: obj_get_def obj_has_def)

lemma obj_get_insert_index:
  "\<not> obj_has m k \<Longrightarrow> obj_get (obj_insert_index m k v) k' = (if k' = k then Some v else obj_get m k')"
  by (induction m) (auto simp: obj_get_def obj_has_def)

lemma obj_get_append:
  "\<not> obj_has m k \<Longrightarrow> obj_get (m @ [(k, v)]) k' = (if k' = k then Some v else obj_get m k')"
  by (auto simp: obj_get_def obj_has_def map_add_def split: option.splits)

lemma obj_get_set: "obj_get (obj_set m k v) k' = (if k' = k then Some v else obj_get m k')"
  by (simp add: obj_set_def obj_get_replace obj_get_insert_index obj_get_append)

lemma obj_has_set: "obj_has (obj_set m k v) k' = (k' = k \<or> obj_has m k')"
  by (simp add: obj_has_def obj_get_set)

lemma set_obj_replace: "set (obj_replace m k v) \<subseteq> insert (k, v) (set m)"
  by (induction m) auto

lemma set_obj_insert_index: "set (obj_insert_index m k v) = insert (k, v) (set m)"
  by (induction m) auto

lemma set_obj_set_subset: "set (obj_set m k v) \<subseteq> insert (k, v) (set m)"
  using set_obj_replace [of m k v]
  by (auto simp: obj_set_def set_obj_insert_index)

lemma obj_replace_keeps: "(k', v') \<in> set m \<Longrightarrow> k' \<noteq> k \<Longrightarrow> (k', v') \<in> set (obj_replace m k v)"
  by (induction m) auto

lemma obj_replace_has: "obj_has m k \<Longrightarrow> (k, v) \<in> set (obj_replace m k v)"
  by (induction m) (auto simp: obj_has_def obj_get_def)

lemma obj_set_keeps: "(k', v') \<in> set m \<Longrightarrow> k' \<noteq> k \<Longrightarrow> (k', v') \<in> set (obj_set m k v)"
  by (simp add: obj_set_def obj_replace_keeps set_obj_insert_index)

lemma obj_set_member: "(k, v) \<in> set (obj_set m k v)"
  by (simp add: obj_set_def obj_replace_has set_obj_insert_index)

lemma obj_get_member: "obj_get m k = Some v \<Longrightarrow> (k, v) \<in> set m"
  by (simp add: obj_get_def map_of_SomeD)

lemma obj_has_member: "(k, v) \<in> set m \<Longrightarrow> obj_has m k"
  by (auto simp: obj_has_def obj_get_def weak_map_of_SomeI dest!: map_of_eq_None_iff [THEN iffD1] intro: rev_image_eqI)

lemma obj_get_Nil [simp]: "obj_get [] k = None"
  by (simp add: obj_get_def)

lemma obj_has_Nil [simp]: "\<not> obj_has [] k"
  by (simp add: obj_has_def)

lemma inheritedName_length: "inheritedName k \<Longrightarrow> 7 \<le> length k"
  by (auto simp: inheritedName_def objectPrototypeNames_def)

lemma inheritedName_proto: "inheritedName protoName"
  by (simp add: inheritedName_def objectPrototypeNames_def protoName_def)

lemma obj_read_Own: "obj_read m k = Own v \<longleftrightarrow> obj_get m k = Some v"
  by (simp add: obj_read_def split: option.splits)

lemma obj_read_Missing: "obj_read m k = Missing \<longleftrightarrow> obj_get m k = None \<and> \<not> inheritedName k"
  by (simp add: obj_read_def split: option.splits)

lemma obj_read_Inherited: "obj_read m k = Inherited \<longleftrightarrow> obj_get m k = None \<and> inheritedName k"
  by (simp add: obj_read_def split: option.splits)

lemma obj_read_set: "obj_read (obj_set m k v) k = Own v"
  by (simp add: obj_read_Own obj_get_set)

lemma obj_read_Nil: "obj_read [] k = (if inheritedName k then Inherited else Missing)"
  by (simp add: obj_read_def)

lemma obj_truthy_iff: "obj_truthy m k \<longleftrightarrow> obj_has m k \<or> inheritedName k"
  by (simp add: obj_truthy_def obj_read_def obj_has_def split: option.splits)

lemma obj_get_put:
  "obj_get (obj_put m k v) k' =
     (if k' = k \<and> (k \<noteq> protoName \<or> obj_has m k) then Some v else obj_get m k')"
  by (auto simp: obj_put_def obj_get_set obj_has_def)

lemma obj_has_put:
  "obj_has (obj_put m k v) k' \<longleftrightarrow> (k' = k \<and> (k \<noteq> protoName \<or> obj_has m k)) \<or> obj_has m k'"
  by (auto simp: obj_has_def obj_get_put)

lemma obj_truthy_put: "obj_truthy (obj_put m k v) k' \<longleftrightarrow> k' = k \<or> obj_truthy m k'"
  using inheritedName_proto by (auto simp: obj_truthy_iff obj_has_put)

lemma set_obj_put_subset: "set (obj_put m k v) \<subseteq> insert (k, v) (set m)"
  using set_obj_set_subset [of m k v] by (auto simp: obj_put_def)

lemma obj_put_keeps: "(k', v') \<in> set m \<Longrightarrow> k' \<noteq> k \<Longrightarrow> (k', v') \<in> set (obj_put m k v)"
  by (simp add: obj_put_def obj_set_keeps)
section \<open>Properties of the approximate hasher\<close>

lemma length_toString36_pos: "1 \<le> length (toString36 n)"
  by (subst toString36.simps) simp

lemma length_toString36_le: "0 < k \<Longrightarrow> n < 36 ^ k \<Longrightarrow> length (toString36 n) \<le> k"
proof (induction k arbitrary: n)
  case 0
  then show ?case by simp
next
  case (Suc k)
  show ?case
  proof (cases "n < 36")
    case True
    then show ?thesis by (subst toString36.simps) simp
  next
    case False
    then have k: "0 < k" using Suc.prems by (cases k) auto
    have "n div 36 < 36 ^ k" using Suc.prems(2) by (simp add: less_mult_imp_div_less mult.commute)
    from Suc.IH [OF k this] False show ?thesis by (subst toString36.simps) simp
  qed
qed

lemma abs_sint32_less: "nat \<bar>sint (w :: 32 word)\<bar> < 36 ^ 6"
proof -
  have "- (2 ^ 31) \<le> sint w" "sint w < 2 ^ 31"
    using sint_ge [of w] sint_lt [of w] by simp_all
  then show ?thesis by simp
qed

lemma length_simpleHash: "1 \<le> length (simpleHash t) \<and> length (simpleHash t) \<le> 6"
proof -
  have "length (toString36 (nat \<bar>sint (foldl hashStep 0 t)\<bar>)) \<le> 6"
    by (rule length_toString36_le [OF _ abs_sint32_less]) simp
  then show ?thesis
    unfolding simpleHash_def using length_toString36_pos by blast
qed

lemma countMatches_sym: "countMatches h1 h2 = countMatches h2 h1"
  by (induction h1 h2 rule: countMatches.induct) auto

lemma countMatches_le: "countMatches h1 h2 \<le> min (length h1) (length h2)"
  by (induction h1 h2 rule: countMatches.induct) auto

lemma countMatches_positions: "countMatches h1 h2 = matchingPositions h1 h2"
proof (induction h1 h2 rule: countMatches.induct)
  case (1 a as b bs)
  have "[0..<Suc (min (length as) (length bs))] = 0 # map Suc [0..<min (length as) (length bs)]"
    by (simp add: upt_conv_Cons map_Suc_upt del: upt_Suc)
  then show ?case using 1
    by (simp add: matchingPositions_def filter_map o_def del: upt_Suc)
qed (simp_all add: matchingPositions_def)

lemma calculateSimilarity_range:
  "0 \<le> calculateSimilarity h1 h2 \<and> calculateSimilarity h1 h2 \<le> 1"
proof (cases "h1 = [] \<and> h2 = []")
  case True
  then show ?thesis by (simp add: calculateSimilarity_def)
next
  case False
  then have pos: "0 < max (length h1) (length h2)"
    by (cases h1; cases h2) auto
  have "countMatches h1 h2 \<le> max (length h1) (length h2)"
    using countMatches_le [of h1 h2] by arith
  then have "(of_nat (countMatches h1 h2) :: rat) \<le> of_nat (max (length h1) (length h2))"
    by (simp only: of_nat_le_iff)
  with pos show ?thesis
    by (simp add: calculateSimilarity_def Let_def divide_le_eq_1)
qed

lemma calculateSimilarity_sym: "calculateSimilarity h1 h2 = calculateSimilarity h2 h1"
  by (simp add: calculateSimilarity_def Let_def countMatches_sym [of h1 h2] max.commute)

text \<open>
  C8 (as amended).  \<open>simpleHash\<close> is a function of its argument alone, so equal texts give
  equal tokens.  The token is the base-36 numeral of the absolute value of a signed 32-bit
  integer, without padding: its length varies between 1 and 6 characters, it is not of
  one fixed width.  For two hashes that are not both empty \<open>calculateSimilarity\<close> is the
  number of positions below the shorter length at which they agree, divided by the
  longer length; for two empty hashes it is 1.  The value always lies in [0,1] and is
  symmetric in the two hashes.
\<close>

theorem hasher_contract:
  "(t = t' \<longrightarrow> simpleHash t = simpleHash t')
   \<and> 1 \<le> length (simpleHash t) \<and> length (simpleHash t) \<le> 6
   \<and> calculateSimilarity h1 h2 =
       (if h1 = [] \<and> h2 = [] then 1
        else of_nat (matchingPositions h1 h2) / of_nat (max (length h1) (length h2)))
   \<and> 0 \<le> calculateSimilarity h1 h2 \<and> calculateSimilarity h1 h2 \<le> 1
   \<and> calculateSimilarity h1 h2 = calculateSimilarity h2 h1"
proof -
  have "calculateSimilarity h1 h2 =
       (if h1 = [] \<and> h2 = [] then 1
        else of_nat (matchingPositions h1 h2) / of_nat (max (length h1) (length h2)))"
    by (auto simp: calculateSimilarity_def Let_def countMatches_positions)
  then show ?thesis
    using length_simpleHash [of t] calculateSimilarity_range [of h1 h2]
      calculateSimilarity_sym [of h1 h2]
    by blast
qed

theorem hasher_contract_witness:
  "simpleHash ''ab'' = ''2e9'' \<and> length (simpleHash ''ab'') \<le> 6
   \<and> calculateSimilarity ''2e9'' ''2x96pl'' = 1 / 3
   \<and> calculateSimilarity ''2e9'' ''2x96pl'' = calculateSimilarity ''2x96pl'' ''2e9''"
proof -
  have "simpleHash ''ab'' = ''2e9''" by code_simp
  moreover have "calculateSimilarity ''2e9'' ''2x96pl'' = 1 / 3" by code_simp
  ultimately show ?thesis
    using hasher_contract [of "''ab''" "''ab''" "''2e9''" "''2x96pl''"] by simp
qed

text \<open>The claim of one fixed width fails: the empty text hashes to a token of one
  character, the text \<open>ab\<close> to a token of three.\<close>

theorem hasher_width_counterexample:
  "length (simpleHash '''') = 1 \<and> length (simpleHash ''ab'') = 3"
  by code_simp

text \<open>A hash is too short to be the name of a member of \<open>Object.prototype\<close>, so a read of
  a hash index by a hash finds an own property or nothing.\<close>

lemma simpleHash_not_inherited: "\<not> inheritedName (simpleHash t)"
  using length_simpleHash [of t] inheritedName_length [of "simpleHash t"] by auto

lemma generateContentHash_not_inherited: "\<not> inheritedName (generateContentHash c)"
  using simpleHash_not_inherited inheritedName_length [of "[]"]
  by (auto simp: generateContentHash_def)

lemma generateTitleHash_not_inherited: "\<not> inheritedName (generateTitleHash c)"
  using simpleHash_not_inherited inheritedName_length [of "[]"]
  by (auto simp: generateTitleHash_def)

section \<open>Properties of the deduplication tracker\<close>

subsection \<open>What the two mark operations write\<close>

lemma published_markAsPublished:
  "published (snd (markAsPublished tr s now)) =
     obj_set (published tr) (generateSignalKey s)
       \<lparr>timestamp = now, rec_source = source s, rec_title = title s, rec_link = link s,
        status = None\<rparr>"
  by (simp add: markAsPublished_def Let_def split: sum.splits)


lemma title_hashes_markAsPublished:
  "title_hashes (snd (markAsPublished tr s now)) =
     (if truthy (title s)
      then obj_set (title_hashes tr) (generateTitleHash (title s))
             \<lparr>timestamp = now, rec_source = source s, rec_title = None, rec_link = link s,
              status = None\<rparr>
      else title_hashes tr)"
  by (simp add: markAsPublished_def Let_def split: sum.splits)

lemma source_hashes_markAsPublished:
  "source_hashes (snd (markAsPublished tr s now)) =
     (if truthy (source s)
      then (case recordSourceTime (source_hashes tr) (sourceKey s) now of
              Inl e \<Rightarrow> source_hashes tr | Inr sh \<Rightarrow> sh)
      else source_hashes tr)"
  by (simp add: markAsPublished_def Let_def sourceKey_def split: sum.splits)


lemma recordSourceTime_Inherited:
  "obj_read sh k = Inherited \<Longrightarrow> recordSourceTime sh k now = Inl TypeError"
  by (simp add: recordSourceTime_def)


lemma recordSourceTime_Missing:
  assumes "obj_read sh k = Missing"
  shows "recordSourceTime sh k now =
           Inr (obj_set (obj_set (obj_set sh k []) k ([] @ [now])) k
                  (filter (\<lambda>t. t > now - 24 * 60 * 60 * 1000) ([] @ [now])))"
  using assms by (simp add: recordSourceTime_def Let_def obj_read_set)

lemma historyOf_read:
  "obj_read sh k = Own h \<Longrightarrow> historyOf sh k = h"
  "obj_read sh k = Missing \<Longrightarrow> historyOf sh k = []"
  "obj_read sh k = Inherited \<Longrightarrow> historyOf sh k = []"
  by (simp_all add: historyOf_def obj_read_Own obj_read_Missing obj_read_Inherited)


lemma published_markAsProcessed:
  "published (markAsProcessed tr s now) =
     obj_set (published tr) (generateSignalKey s)
       \<lparr>timestamp = now, rec_source = source s, rec_title = title s, rec_link = link s,
        status = Some ''processed''\<rparr>"
  by (simp add: markAsProcessed_def Let_def)

lemma content_hashes_markAsProcessed:
  "content_hashes (markAsProcessed tr s now) =
     (if truthy (content s)
      then obj_set (content_hashes tr) (generateContentHash (content s))
             \<lparr>timestamp = now, rec_source = source s, rec_title = title s, rec_link = link s,
              status = Some ''processed''\<rparr>
      else content_hashes tr)"
  by (simp add: markAsProcessed_def Let_def)

text \<open>The keys that records are assigned to are never \<open>__proto__\<close>.\<close>

lemma generateSignalKey_colon: "CHR '':'' \<in> set (generateSignalKey s)"
  by (simp add: generateSignalKey_def Let_def)

lemma generateSignalKey_not_proto: "generateSignalKey s \<noteq> protoName"
proof
  assume "generateSignalKey s = protoName"
  then have "CHR '':'' \<in> set protoName"
    using generateSignalKey_colon [of s] by simp
  then show False by (simp add: protoName_def)
qed

lemma hashes_not_proto:
  "generateContentHash c \<noteq> protoName" "generateTitleHash c \<noteq> protoName"
  using generateContentHash_not_inherited [of c] generateTitleHash_not_inherited [of c]
    inheritedName_proto by auto

lemma published_applyOp:
  "\<exists>r. published (applyOp tr op) = obj_set (published tr) (generateSignalKey (opSignal op)) r"
  by (cases op) (auto simp: published_markAsPublished published_markAsProcessed)


lemma entry_published_applyOps:
  "(k, r) \<in> set (published tr) \<Longrightarrow> list_all (\<lambda>op. generateSignalKey (opSignal op) \<noteq> k) ops
   \<Longrightarrow> (k, r) \<in> set (published (applyOps tr ops))"
proof (induction ops arbitrary: tr)
  case Nil
  then show ?case by (simp add: applyOps_def)
next
  case (Cons op ops)
  obtain r' where "published (applyOp tr op) = obj_set (published tr) (generateSignalKey (opSignal op)) r'"
    using published_applyOp by blast
  with Cons.prems have "(k, r) \<in> set (published (applyOp tr op))"
    by (auto intro: obj_set_keeps)
  from Cons.IH [OF this] Cons.prems(2) show ?case by (simp add: applyOps_def)
qed

subsection \<open>The URL guard\<close>

lemma str_includes_sublist: "str_includes h n \<longleftrightarrow> sublist n h"
  by (induction h) (auto simp: sublist_Cons_right)

lemma cleanUrl_prefix: "prefix (cleanUrl u) (toLowerCase u)"
proof -
  have "prefix (splitFirst CHR ''#'' (splitFirst CHR ''?'' u)) u"
    unfolding splitFirst_def
    by (rule prefix_order.trans [OF takeWhile_is_prefix takeWhile_is_prefix])
  then show ?thesis
    unfolding cleanUrl_def toLowerCase_def by (rule map_mono_prefix)
qed

lemma includes_cleaned_link:
  "str_includes (cleanUrl l) c \<Longrightarrow> str_includes (toLowerCase l) c"
  unfolding str_includes_sublist
  using cleanUrl_prefix [of l] prefix_imp_sublist sublist_order.order_trans by blast


lemma scanLinks_iff: "scanLinks c m \<longleftrightarrow> (\<exists>(k, v) \<in> set m. linkIncludes c v)"
  by (induction c m rule: scanLinks.induct) auto

lemma checkURLAlreadyProcessed_iff:
  "checkURLAlreadyProcessed tr u \<longleftrightarrow>
     u \<noteq> [] \<and> (scanLinks (cleanUrl u) (published tr) \<or> scanLinks (cleanUrl u) (content_hashes tr))"
  by (simp add: checkURLAlreadyProcessed_def Let_def)

lemma checkURL_from_published:
  "(k, r) \<in> set (published tr) \<Longrightarrow> truthy (rec_link r)
   \<Longrightarrow> str_includes (toLowerCase (orEmpty (rec_link r))) (cleanUrl u) \<Longrightarrow> u \<noteq> []
   \<Longrightarrow> checkURLAlreadyProcessed tr u"
  by (auto simp: checkURLAlreadyProcessed_iff scanLinks_iff linkIncludes_def)

subsection \<open>The combined check\<close>

lemma checkDeduplication_url:
  "checkURLProcessed opts \<Longrightarrow> truthy (link s) \<Longrightarrow> checkURLAlreadyProcessed tr (orEmpty (link s))
   \<Longrightarrow> checkDeduplication tr s opts now =
         Inr \<lparr>isDuplicate = True, reasons = [''url_already_processed''],
              details = noDetails\<lparr>urlProcessed := True\<rparr>\<rparr>"
  by (simp add: checkDeduplication_def Let_def flag_def)

lemma checkDeduplication_published:
  "\<not> (checkURLProcessed opts \<and> truthy (link s) \<and> checkURLAlreadyProcessed tr (orEmpty (link s)))
   \<Longrightarrow> checkAlreadyPublishedOpt opts \<Longrightarrow> checkAlreadyPublished tr s
   \<Longrightarrow> checkDeduplication tr s opts now =
         Inr \<lparr>isDuplicate = True, reasons = [''already_published''],
              details = noDetails\<lparr>alreadyPublished := True\<rparr>\<rparr>"
  by (simp add: checkDeduplication_def Let_def flag_def)





subsection \<open>The soft checks and their order\<close>

lemma contentStep_eq:
  "checkContent opts \<Longrightarrow>
   contentStep tr s opts r =
     (if contentFires tr s opts
      then r\<lparr>isDuplicate := True,
             reasons := reasons r @ [orEmpty (sim_reason
                (checkContentSimilarity tr (content s) (contentSimilarityThreshold opts)))],
             details := (details r)\<lparr>contentSimilarity := Some
                (checkContentSimilarity tr (content s) (contentSimilarityThreshold opts))\<rparr>\<rparr>
      else r)"
  by (simp add: contentStep_def contentFires_def Let_def flag_def)

lemma titleStep_eq:
  "checkTitle opts \<Longrightarrow>
   titleStep tr s opts r =
     (if titleFires tr s opts
      then r\<lparr>isDuplicate := True,
             reasons := reasons r @ [orEmpty (sim_reason
                (checkTitleSimilarity tr (title s) (titleSimilarityThreshold opts)))],
             details := (details r)\<lparr>titleSimilarity := Some
                (checkTitleSimilarity tr (title s) (titleSimilarityThreshold opts))\<rparr>\<rparr>
      else r)"
  by (simp add: titleStep_def titleFires_def Let_def flag_def)

lemma checkSourceFrequency_raises:
  "sourceInherited tr s \<Longrightarrow>
   checkSourceFrequency tr (orEmpty (source s)) m now = Inl TypeError"
  by (simp add: checkSourceFrequency_def sourceInherited_def sourceKey_def Let_def
      split: lookup.splits)

lemma checkSourceFrequency_returns:
  "\<not> sourceInherited tr s \<Longrightarrow> truthy (source s) \<Longrightarrow>
   checkSourceFrequency tr (orEmpty (source s)) m now =
     Inr (frequencyOf (historyOf (source_hashes tr) (sourceKey s)) m (now - 60 * 60 * 1000))"
  by (simp add: checkSourceFrequency_def sourceInherited_def sourceKey_def Let_def historyOf_read
      split: lookup.splits)

lemma sourceStep_raises:
  "checkSource opts \<Longrightarrow> sourceInherited tr s \<Longrightarrow> sourceStep tr s opts now r = Inl TypeError"
  by (simp add: sourceStep_def checkSourceFrequency_raises) (simp add: sourceInherited_def)

lemma sourceStep_returns:
  "checkSource opts \<Longrightarrow> \<not> sourceInherited tr s \<Longrightarrow>
   sourceStep tr s opts now r =
     Inr (if sourceFires tr s opts now
          then r\<lparr>isDuplicate := True,
                 reasons := reasons r @ [''source_frequency_limit''],
                 details := (details r)\<lparr>sourceFrequency := Some
                    (frequencyOf (historyOf (source_hashes tr) (sourceKey s))
                       (maxSourcePerHour opts) (now - 60 * 60 * 1000))\<rparr>\<rparr>
          else r)"
  by (simp add: sourceStep_def checkSourceFrequency_returns sourceFires_def frequencyOf_def
      Let_def flag_def)

lemma content_reason:
  "sim_isDuplicate (checkContentSimilarity tr c th) \<Longrightarrow>
   orEmpty (sim_reason (checkContentSimilarity tr c th)) \<in> {''exact_content_match'', ''similar_content''}"
  by (auto simp: checkContentSimilarity_def Let_def noSimilarity_def
      split: option.splits lookup.splits)

lemma title_reason:
  "sim_isDuplicate (checkTitleSimilarity tr t th) \<Longrightarrow>
   orEmpty (sim_reason (checkTitleSimilarity tr t th)) \<in> {''exact_title_match'', ''similar_title''}"
  by (auto simp: checkTitleSimilarity_def Let_def noSimilarity_def
      split: option.splits lookup.splits)

lemma checkDeduplication_soft:
  assumes "allChecks opts"
    and "\<not> (truthy (link s) \<and> checkURLAlreadyProcessed tr (orEmpty (link s)))"
    and "\<not> checkAlreadyPublished tr s"
  shows "checkDeduplication tr s opts now =
           sourceStep tr s opts now (titleStep tr s opts (contentStep tr s opts
             \<lparr>isDuplicate = False, reasons = [], details = noDetails\<rparr>))"
  using assms by (auto simp add: checkDeduplication_def Let_def allChecks_def)

text \<open>The list of reasons the three soft checks leave behind.\<close>

lemma soft_result:
  assumes "allChecks opts" and "\<not> sourceInherited tr s"
  shows "\<exists>r. sourceStep tr s opts now (titleStep tr s opts (contentStep tr s opts
                \<lparr>isDuplicate = False, reasons = [], details = noDetails\<rparr>)) = Inr r
           \<and> reasons r =
               (if contentFires tr s opts
                then [orEmpty (sim_reason (checkContentSimilarity tr (content s) (contentSimilarityThreshold opts)))]
                else [])
               @ (if titleFires tr s opts
                  then [orEmpty (sim_reason (checkTitleSimilarity tr (title s) (titleSimilarityThreshold opts)))]
                  else [])
               @ (if sourceFires tr s opts now then [''source_frequency_limit''] else [])
           \<and> isDuplicate r =
               (contentFires tr s opts \<or> titleFires tr s opts \<or> sourceFires tr s opts now)"
proof -
  have o: "checkContent opts" "checkTitle opts" "checkSource opts"
    using assms(1) by (simp_all add: allChecks_def)
  show ?thesis
    by (simp add: contentStep_eq [OF o(1)] titleStep_eq [OF o(2)]
        sourceStep_returns [OF o(3) assms(2)])
qed

text \<open>
  The order of the checks.  With all checks enabled \<open>checkDeduplication\<close> first makes the URL
  check and, if it fires, returns with \<open>url_already_processed\<close> as the only reason;
  otherwise it makes the already-published check and, if that fires, returns with
  \<open>already_published\<close> as the only reason; otherwise it makes the content, title and
  source checks.  If the read of the source's history gives a list or nothing, it returns
  the reasons of those that fire, in that order, and the signal is a duplicate exactly when
  one of them fires; if the read gives an inherited member, it raises \<open>TypeError\<close>.
\<close>

lemma checkDeduplication_order:
  assumes "allChecks opts"
  shows "(if truthy (link s) \<and> checkURLAlreadyProcessed tr (orEmpty (link s))
          then checkDeduplication tr s opts now =
                 Inr \<lparr>isDuplicate = True, reasons = [''url_already_processed''],
                      details = noDetails\<lparr>urlProcessed := True\<rparr>\<rparr>
          else if checkAlreadyPublished tr s
          then checkDeduplication tr s opts now =
                 Inr \<lparr>isDuplicate = True, reasons = [''already_published''],
                      details = noDetails\<lparr>alreadyPublished := True\<rparr>\<rparr>
          else if sourceInherited tr s
          then checkDeduplication tr s opts now = Inl TypeError
          else (\<exists>r. checkDeduplication tr s opts now = Inr r
                 \<and> reasons r =
                     (if contentFires tr s opts
                      then [orEmpty (sim_reason (checkContentSimilarity tr (content s)
                                      (contentSimilarityThreshold opts)))]
                      else [])
                     @ (if titleFires tr s opts
                        then [orEmpty (sim_reason (checkTitleSimilarity tr (title s)
                                        (titleSimilarityThreshold opts)))]
                        else [])
                     @ (if sourceFires tr s opts now then [''source_frequency_limit''] else [])
                 \<and> isDuplicate r =
                     (contentFires tr s opts \<or> titleFires tr s opts \<or> sourceFires tr s opts now)))
         \<and> (contentFires tr s opts \<longrightarrow>
              orEmpty (sim_reason (checkContentSimilarity tr (content s)
                 (contentSimilarityThreshold opts))) \<in> {''exact_content_match'', ''similar_content''})
         \<and> (titleFires tr s opts \<longrightarrow>
              orEmpty (sim_reason (checkTitleSimilarity tr (title s)
                 (titleSimilarityThreshold opts))) \<in> {''exact_title_match'', ''similar_title''})"
proof -
  have o: "checkURLProcessed opts" "checkAlreadyPublishedOpt opts" "checkSource opts"
    using assms by (simp_all add: allChecks_def)
  have hard1: "checkDeduplication tr s opts now =
                 Inr \<lparr>isDuplicate = True, reasons = [''url_already_processed''],
                      details = noDetails\<lparr>urlProcessed := True\<rparr>\<rparr>"
    if "truthy (link s) \<and> checkURLAlreadyProcessed tr (orEmpty (link s))"
    using that checkDeduplication_url [OF o(1), of s tr now] by simp
  have hard2: "checkDeduplication tr s opts now =
                 Inr \<lparr>isDuplicate = True, reasons = [''already_published''],
                      details = noDetails\<lparr>alreadyPublished := True\<rparr>\<rparr>"
    if "\<not> (truthy (link s) \<and> checkURLAlreadyProcessed tr (orEmpty (link s)))"
      and "checkAlreadyPublished tr s"
    using that checkDeduplication_published [OF _ o(2), of s tr now] by blast
  have raise: "checkDeduplication tr s opts now = Inl TypeError"
    if "\<not> (truthy (link s) \<and> checkURLAlreadyProcessed tr (orEmpty (link s)))"
      and "\<not> checkAlreadyPublished tr s" and "sourceInherited tr s"
    unfolding checkDeduplication_soft [OF assms that(1,2)]
    by (rule sourceStep_raises [OF o(3) that(3)])
  have soft: "\<exists>r. checkDeduplication tr s opts now = Inr r
               \<and> reasons r =
                 (if contentFires tr s opts
                  then [orEmpty (sim_reason (checkContentSimilarity tr (content s)
                                  (contentSimilarityThreshold opts)))]
                  else [])
                 @ (if titleFires tr s opts
                    then [orEmpty (sim_reason (checkTitleSimilarity tr (title s)
                                    (titleSimilarityThreshold opts)))]
                    else [])
                 @ (if sourceFires tr s opts now then [''source_frequency_limit''] else [])
               \<and> isDuplicate r =
                   (contentFires tr s opts \<or> titleFires tr s opts \<or> sourceFires tr s opts now)"
    if "\<not> (truthy (link s) \<and> checkURLAlreadyProcessed tr (orEmpty (link s)))"
      and "\<not> checkAlreadyPublished tr s" and "\<not> sourceInherited tr s"
    unfolding checkDeduplication_soft [OF assms that(1,2)]
    by (rule soft_result [OF assms that(3)])
  have cr: "contentFires tr s opts \<longrightarrow>
              orEmpty (sim_reason (checkContentSimilarity tr (content s)
                 (contentSimilarityThreshold opts))) \<in> {''exact_content_match'', ''similar_content''}"
    using content_reason by (simp only: contentFires_def) blast
  have trn: "titleFires tr s opts \<longrightarrow>
              orEmpty (sim_reason (checkTitleSimilarity tr (title s)
                 (titleSimilarityThreshold opts))) \<in> {''exact_title_match'', ''similar_title''}"
    using title_reason by (simp only: titleFires_def) blast
  show ?thesis
  proof (cases "truthy (link s) \<and> checkURLAlreadyProcessed tr (orEmpty (link s))")
    case True
    with hard1 cr trn show ?thesis by (simp only: if_True simp_thms)
  next
    case False
    note noUrl = this
    show ?thesis
    proof (cases "checkAlreadyPublished tr s")
      case True
      with hard2 [OF noUrl] noUrl cr trn show ?thesis by (simp only: if_True if_False simp_thms)
    next
      case False
      note noPub = this
      show ?thesis
      proof (cases "sourceInherited tr s")
        case True
        with raise [OF noUrl noPub] noUrl noPub cr trn show ?thesis
          by (simp only: if_True if_False simp_thms)
      next
        case False
        with soft [OF noUrl noPub] noUrl noPub cr trn show ?thesis
          by (simp only: if_False simp_thms)
      qed
    qed
  qed
qed


text \<open>An example where two soft checks fire together.\<close>

lemma checkDeduplication_order_example:
  "checkDeduplication
        (snd (markAsPublished emptyTracker (mkSignal ''A'' ''http://x.com/1'' ''Foo Launch'') 1000))
        (mkUnlinked ''A'' ''Foo Launch'') strictOptions 2000
     = Inr \<lparr>isDuplicate = True, reasons = [''exact_title_match'', ''source_frequency_limit''],
            details = noDetails
              \<lparr>titleSimilarity := Some \<lparr>sim_isDuplicate = True, similarity = 1,
                   sim_reason = Some ''exact_title_match'',
                   original = Own \<lparr>timestamp = 1000, rec_source = Some ''A'', rec_title = None,
                                   rec_link = Some ''http://x.com/1'', status = None\<rparr>\<rparr>,
               sourceFrequency := Some \<lparr>freq_isDuplicate = True,
                   freq_reason = Some ''source_frequency_limit'', count = 1, limit = Some 1\<rparr>\<rparr>\<rparr>"
proof -
  let ?A = "mkSignal ''A'' ''http://x.com/1'' ''Foo Launch''"
  let ?s = "mkUnlinked ''A'' ''Foo Launch''"
  let ?tr = "snd (markAsPublished emptyTracker ?A 1000)"
  have a: "allChecks strictOptions"
    by (simp add: allChecks_def strictOptions_def defaultOptions_def)
  have o: "checkContent strictOptions" "checkTitle strictOptions" "checkSource strictOptions"
    using a by (simp_all add: allChecks_def)
  have nl: "\<not> (truthy (link ?s) \<and> checkURLAlreadyProcessed ?tr (orEmpty (link ?s)))"
    by (simp add: mkUnlinked_def truthy_def)
  have keys: "generateSignalKey ?s \<noteq> generateSignalKey ?A"
    by code_simp
  have np: "\<not> checkAlreadyPublished ?tr ?s"
    using keys by (simp add: checkAlreadyPublished_def published_markAsPublished obj_has_set
        emptyTracker_def)
  have nc: "\<not> contentFires ?tr ?s strictOptions"
    by (simp add: contentFires_def mkUnlinked_def truthy_def)
  have tA: "truthy (title ?A)" "title ?s = title ?A" "truthy (source ?A)" "truthy (source ?s)"
    "sourceKey ?s = sourceKey ?A" "source ?A = Some ''A''" "link ?A = Some ''http://x.com/1''"
    by (simp_all add: mkSignal_def mkUnlinked_def truthy_def sourceKey_def)
  have k: "sourceKey ?A = ''a''"
    by code_simp
  have n: "obj_read [] ''a'' = Missing"
    using inheritedName_length [of "''a''"] by (auto simp: obj_read_Nil)
  have sh: "source_hashes ?tr = [(''a'', [1000])]"
    using tA(3) by (simp add: source_hashes_markAsPublished k emptyTracker_def
        recordSourceTime_Missing [OF n] obj_set_def obj_has_def obj_get_def isArrayIndex_def
        isDigit_def code_def)
  have ni: "\<not> sourceInherited ?tr ?s"
    by (simp add: sourceInherited_def tA(5) k sh obj_read_def obj_get_def)
  have hist: "historyOf (source_hashes ?tr) (sourceKey ?s) = [1000]"
    by (simp add: tA(5) k sh historyOf_def obj_get_def)
  have tc: "checkTitleSimilarity ?tr (title ?A) (titleSimilarityThreshold strictOptions) =
              \<lparr>sim_isDuplicate = True, similarity = 1, sim_reason = Some ''exact_title_match'',
               original = Own \<lparr>timestamp = 1000, rec_source = Some ''A'', rec_title = None,
                               rec_link = Some ''http://x.com/1'', status = None\<rparr>\<rparr>"
    using tA(1) by (simp add: checkTitleSimilarity_def Let_def title_hashes_markAsPublished
        obj_read_set tA(6,7))
  have tf: "titleFires ?tr ?s strictOptions"
    using tA(1) by (simp add: titleFires_def tc tA(2))
  have sf: "sourceFires ?tr ?s strictOptions 2000"
    using tA(4) by (simp add: sourceFires_def hist strictOptions_def defaultOptions_def)
  have m: "maxSourcePerHour strictOptions = 1"
    by (simp add: strictOptions_def defaultOptions_def)
  show ?thesis
    unfolding checkDeduplication_soft [OF a nl np]
    using nc tf sf
    by (simp add: contentStep_eq [OF o(1)] titleStep_eq [OF o(2)]
        sourceStep_returns [OF o(3) ni] tA(2) tc hist m frequencyOf_def noDetails_def)
qed

lemma sourceKey_constructor: "sourceKey (mkUnlinked ''constructor'' t) = ''constructor''"
  unfolding sourceKey_def mkUnlinked_def by code_simp

lemma inherited_constructor: "inheritedName ''constructor''"
  by (simp add: inheritedName_def objectPrototypeNames_def)

lemma sourceInherited_constructor:
  "source_hashes tr = [] \<Longrightarrow> sourceInherited tr (mkUnlinked ''constructor'' t)"
  using inherited_constructor
  by (simp add: sourceInherited_def sourceKey_constructor obj_read_Nil)
     (simp add: mkUnlinked_def truthy_def)

lemma titleFires_emptyTracker: "\<not> titleFires emptyTracker s opts"
  using generateTitleHash_not_inherited
  by (simp add: titleFires_def checkTitleSimilarity_def emptyTracker_def obj_read_Nil
      noSimilarity_def)

text \<open>
  C7.  The order of the checks is as the claim says (\<open>checkDeduplication_order\<close>), but the
  source check does not always complete: for the signal \<open>{source: 'constructor', title:
  'Foo Launch'}\<close> on an empty tracker, with the default options, the two hard stops and
  the content and title checks pass, and the source check reads the inherited member
  \<open>constructor\<close> of \<open>source_hashes\<close> as the source's history and raises \<open>TypeError\<close>; no
  result with reasons is returned.
\<close>

theorem checkDeduplication_constructor_source:
  "allChecks defaultOptions
   \<and> checkDeduplication emptyTracker (mkUnlinked ''constructor'' ''Foo Launch'') defaultOptions 1000
       = Inl TypeError"
proof -
  let ?s = "mkUnlinked ''constructor'' ''Foo Launch''"
  have a: "allChecks defaultOptions"
    by (simp add: allChecks_def defaultOptions_def)
  have nl: "\<not> (truthy (link ?s) \<and> checkURLAlreadyProcessed emptyTracker (orEmpty (link ?s)))"
    by (simp add: mkUnlinked_def truthy_def)
  have np: "\<not> checkAlreadyPublished emptyTracker ?s"
    by (simp add: checkAlreadyPublished_def emptyTracker_def)
  have si: "sourceInherited emptyTracker ?s"
    by (rule sourceInherited_constructor) (simp add: emptyTracker_def)
  have "checkDeduplication emptyTracker ?s defaultOptions 1000 = Inl TypeError"
    using checkDeduplication_order [OF a, of ?s emptyTracker 1000, THEN conjunct1] nl np si
    by (simp only: if_True if_False)
  with a show ?thesis by (intro conjI)
qed

subsection \<open>The publishing filter\<close>






lemma judged_Inl:
  "checkDeduplication tr s opts now = Inl e \<Longrightarrow> \<not> judgedDuplicate tr opts now s"
  "checkDeduplication tr s opts now = Inl e \<Longrightarrow> \<not> judgedNew tr opts now s"
  by (simp_all add: judgedDuplicate_def judgedNew_def)















subsection \<open>Records written by the mark operations\<close>












subsection \<open>The URL guard after a mark\<close>

lemma scanLinks_list_ex: "scanLinks c m = list_ex (\<lambda>l. truthy l \<and> str_includes (toLowerCase (orEmpty l)) c)
                             (map (\<lambda>(k, v). rec_link v) m)"
  by (induction c m rule: scanLinks.induct) (auto simp: linkIncludes_def)

lemma checkURLAlreadyProcessed_links:
  "checkURLAlreadyProcessed tr u \<longleftrightarrow>
     u \<noteq> [] \<and> list_ex (\<lambda>l. truthy l \<and> str_includes (toLowerCase (orEmpty l)) (cleanUrl u))
                (storedLinks tr)"
  by (simp add: checkURLAlreadyProcessed_iff scanLinks_list_ex storedLinks_def)

text \<open>
  C6 (as amended).  For every non-empty URL u: once a signal with a non-empty link whose
  cleaned form contains the cleaned form of u has been recorded by \<open>markAsPublished\<close> or
  \<open>markAsProcessed\<close>, \<open>checkURLAlreadyProcessed(u)\<close> is true, whatever the title and source
  under which it was recorded, and stays true as long as no later mark overwrites that
  signal's composite key.  The check is a function of u and of the stored link fields
  alone: it is true exactly when u is non-empty and some stored non-empty link, lowercased,
  contains the cleaned u.
\<close>

theorem url_guard:
  assumes "u \<noteq> []"
    and "truthy (link s)"
    and "str_includes (cleanUrl (orEmpty (link s))) (cleanUrl u)"
    and "tr1 = snd (markAsPublished tr s now) \<or> tr1 = markAsProcessed tr s now"
    and "list_all (\<lambda>op. generateSignalKey (opSignal op) \<noteq> generateSignalKey s) ops"
  shows "checkURLAlreadyProcessed (applyOps tr1 ops) u
         \<and> (checkURLAlreadyProcessed tr' u' \<longleftrightarrow>
              u' \<noteq> [] \<and> list_ex (\<lambda>l. truthy l \<and> str_includes (toLowerCase (orEmpty l)) (cleanUrl u'))
                          (storedLinks tr'))"
proof -
  obtain r where r: "(generateSignalKey s, r) \<in> set (published tr1)" "rec_link r = link s"
  proof (cases "tr1 = snd (markAsPublished tr s now)")
    case True
    then have "(generateSignalKey s, \<lparr>timestamp = now, rec_source = source s, rec_title = title s,
                 rec_link = link s, status = None\<rparr>) \<in> set (published tr1)"
      by (simp add: published_markAsPublished obj_set_member)
    then show ?thesis using that by simp
  next
    case False
    then have "tr1 = markAsProcessed tr s now" using assms(4) by simp
    then have "(generateSignalKey s, \<lparr>timestamp = now, rec_source = source s, rec_title = title s,
                 rec_link = link s, status = Some ''processed''\<rparr>) \<in> set (published tr1)"
      by (simp add: published_markAsProcessed obj_set_member)
    then show ?thesis using that by simp
  qed
  have "(generateSignalKey s, r) \<in> set (published (applyOps tr1 ops))"
    using r(1) assms(5) by (rule entry_published_applyOps)
  moreover have "str_includes (toLowerCase (orEmpty (rec_link r))) (cleanUrl u)"
    using assms(3) r(2) by (simp add: includes_cleaned_link)
  ultimately have "checkURLAlreadyProcessed (applyOps tr1 ops) u"
    using assms(1,2) r(2) by (auto intro: checkURL_from_published)
  then show ?thesis
    using checkURLAlreadyProcessed_links [of tr' u'] by blast
qed

theorem url_guard_witness:
  "''http://x.com/1?utm_source=foo'' \<noteq> []
   \<and> truthy (link (mkSignal ''A'' ''http://x.com/1'' ''Foo Launch''))
   \<and> str_includes (cleanUrl (orEmpty (link (mkSignal ''A'' ''http://x.com/1'' ''Foo Launch''))))
        (cleanUrl ''http://x.com/1?utm_source=foo'')
   \<and> list_all (\<lambda>op. generateSignalKey (opSignal op)
                     \<noteq> generateSignalKey (mkSignal ''A'' ''http://x.com/1'' ''Foo Launch''))
        [MarkPublished (mkSignal ''B'' ''http://y.com/2'' ''Bar Update'') 2000]
   \<and> checkURLAlreadyProcessed
        (applyOps (markAsProcessed emptyTracker (mkSignal ''A'' ''http://x.com/1'' ''Foo Launch'') 1000)
           [MarkPublished (mkSignal ''B'' ''http://y.com/2'' ''Bar Update'') 2000])
        ''http://x.com/1?utm_source=foo''"
proof -
  have l: "truthy (link (mkSignal ''A'' ''http://x.com/1'' ''Foo Launch''))"
    by (simp add: mkSignal_def truthy_def)
  have i: "str_includes (cleanUrl (orEmpty (link (mkSignal ''A'' ''http://x.com/1'' ''Foo Launch''))))
        (cleanUrl ''http://x.com/1?utm_source=foo'')"
    by code_simp
  have k: "list_all (\<lambda>op. generateSignalKey (opSignal op)
                     \<noteq> generateSignalKey (mkSignal ''A'' ''http://x.com/1'' ''Foo Launch''))
        [MarkPublished (mkSignal ''B'' ''http://y.com/2'' ''Bar Update'') 2000]"
    by code_simp
  have u: "''http://x.com/1?utm_source=foo'' \<noteq> []" by simp
  have "checkURLAlreadyProcessed
        (applyOps (markAsProcessed emptyTracker (mkSignal ''A'' ''http://x.com/1'' ''Foo Launch'') 1000)
           [MarkPublished (mkSignal ''B'' ''http://y.com/2'' ''Bar Update'') 2000])
        ''http://x.com/1?utm_source=foo''"
    using url_guard [OF u l i _ k, of
        "markAsProcessed emptyTracker (mkSignal ''A'' ''http://x.com/1'' ''Foo Launch'') 1000"
        emptyTracker 1000 emptyTracker "[]"]
    by blast
  with u l i k show ?thesis by blast
qed

text \<open>The claim fails for the empty URL: its cleaned form, the empty string, is contained
  in the cleaned link of the recorded signal, and the check returns false.\<close>

theorem url_guard_counterexample:
  "str_includes (cleanUrl ''http://x.com/1'') (cleanUrl '''')
   \<and> \<not> checkURLAlreadyProcessed
          (snd (markAsPublished emptyTracker (mkSignal ''A'' ''http://x.com/1'' ''Foo Launch'') 1000)) ''''"
proof -
  have "str_includes (cleanUrl ''http://x.com/1'') (cleanUrl '''')"
    by code_simp
  then show ?thesis
    by (simp add: checkURLAlreadyProcessed_def)
qed

section \<open>Properties of the collection tracker\<close>

lemma obj_truthy_fold_put:
  "obj_truthy (fold (\<lambda>k m. obj_put m k v) ks m) k' \<longleftrightarrow> k' \<in> set ks \<or> obj_truthy m k'"
  by (induction ks arbitrary: m) (auto simp: obj_truthy_put)

lemma obj_has_fold_put:
  "obj_has (fold (\<lambda>k m. obj_put m k v) ks m) k' \<Longrightarrow> k' \<in> set ks \<or> obj_has m k'"
proof (induction ks arbitrary: m)
  case Nil
  then show ?case by simp
next
  case (Cons a ks)
  from Cons.prems have "obj_has (fold (\<lambda>k m. obj_put m k v) ks (obj_put m a v)) k'"
    by simp
  from Cons.IH [OF this] show ?case
    by (auto simp: obj_has_put)
qed

lemma obj_truthy_inherited: "inheritedName k \<Longrightarrow> obj_truthy m k"
  by (simp add: obj_truthy_iff)

lemma obj_truthy_Nil: "obj_truthy [] k \<longleftrightarrow> inheritedName k"
  by (simp add: obj_truthy_iff)

lemma today_cleanupOldEntries: "today_collected (cleanupOldEntries tz tr now) = today_collected tr"
  by (simp add: cleanupOldEntries_def Let_def split: option.splits)

lemma today_markAsCollected:
  "today_collected (markAsCollected URL tz tr s now) =
     Some (fold (\<lambda>k m. obj_put m k now) (collectionKeys URL s)
             (case today_collected tr of None \<Rightarrow> [] | Some m \<Rightarrow> m))"
  by (simp add: markAsCollected_def Let_def today_cleanupOldEntries)

lemma today_truthy_markAsCollected:
  "\<exists>m. today_collected (markAsCollected URL tz tr s now) = Some m
       \<and> (\<forall>k. obj_truthy m k \<longleftrightarrow>
              k \<in> set (collectionKeys URL s) \<or> inheritedName k
              \<or> (\<exists>m0. today_collected tr = Some m0 \<and> obj_truthy m0 k))"
proof (cases "today_collected tr")
  case None
  then show ?thesis
    by (simp add: today_markAsCollected obj_truthy_fold_put obj_truthy_Nil)
next
  case (Some m0)
  then show ?thesis
    by (auto simp: today_markAsCollected obj_truthy_fold_put intro: obj_truthy_inherited)
qed

lemma scanToday_iff: "scanToday m ks \<longleftrightarrow> (\<exists>k \<in> set ks. obj_truthy m k)"
  by (induction ks) auto

lemma isAlreadyCollected_today:
  "today_collected tr = Some m \<Longrightarrow> k \<in> set (collectionKeys URL s) \<Longrightarrow> obj_truthy m k
   \<Longrightarrow> isAlreadyCollected URL tr s now"
  by (auto simp: isAlreadyCollected_def Let_def scanToday_iff)

lemma isAlreadyCollected_fresh: "\<not> isAlreadyCollected URL freshTracker s now"
  by (simp add: isAlreadyCollected_def freshTracker_def)

lemma title_key: "toLowerCase (normalizeTitle (signalTitle s)) \<in> set (collectionKeys URL s)"
  by (simp add: collectionKeys_def Let_def signalTitle_def)

lemma collected_after_mark:
  assumes "k \<in> set (collectionKeys URL s1)" and "k \<in> set (collectionKeys URL s2)"
  shows "isAlreadyCollected URL (markAsCollected URL tz tr s1 now) s2 now'"
proof -
  obtain m where m: "today_collected (markAsCollected URL tz tr s1 now) = Some m" "obj_truthy m k"
    using today_truthy_markAsCollected [of URL tz tr s1 now] assms(1) by blast
  show ?thesis
    by (rule isAlreadyCollected_today [OF m(1) assms(2) m(2)])
qed

text \<open>
  C2 (as amended).  For every pair of signals with identical normalized titles, whatever
  their sources and links, the collection tracker treats the second as already collected
  after the first has been marked: the title-only key of the second is found in today's
  scope.  This covers two signals with the same title and empty links, and equally two
  signals with the same title, different sources and different non-empty links.
\<close>

theorem title_key_collision:
  assumes "normalizeTitle (signalTitle s1) = normalizeTitle (signalTitle s2)"
  shows "isAlreadyCollected URL (markAsCollected URL tz tr s1 now) s2 now'"
proof (rule collected_after_mark)
  show "toLowerCase (normalizeTitle (signalTitle s1)) \<in> set (collectionKeys URL s1)"
    by (rule title_key)
  show "toLowerCase (normalizeTitle (signalTitle s1)) \<in> set (collectionKeys URL s2)"
    unfolding assms by (rule title_key)
qed

theorem title_key_collision_witness:
  "normalizeTitle (signalTitle (mkSignal ''A'' [] ''Foo Launch''))
     = normalizeTitle (signalTitle (mkSignal ''B'' [] ''foo  launch!''))
   \<and> isAlreadyCollected URL_sample
        (markAsCollected URL_sample tzUTC freshTracker (mkSignal ''A'' [] ''Foo Launch'') 1000)
        (mkSignal ''B'' [] ''foo  launch!'') 2000"
proof -
  have t: "normalizeTitle (signalTitle (mkSignal ''A'' [] ''Foo Launch''))
     = normalizeTitle (signalTitle (mkSignal ''B'' [] ''foo  launch!''))"
    by code_simp
  from title_key_collision [OF t] t show ?thesis by (intro conjI)
qed

text \<open>The first half of the claim fails: two signals with the same title, different
  sources and different non-empty links share the title-only key, and the second is
  treated as already collected.\<close>

theorem title_key_counterexample:
  "source (mkSignal ''A'' ''http://x.com/1'' ''Foo Launch'')
     \<noteq> source (mkSignal ''B'' ''http://y.com/2'' ''Foo Launch'')
   \<and> normalizeUrl URL_sample ''http://x.com/1'' = ''http://x.com/1''
   \<and> normalizeUrl URL_sample ''http://y.com/2'' = ''http://y.com/2''
   \<and> isAlreadyCollected URL_sample
        (markAsCollected URL_sample tzUTC freshTracker
           (mkSignal ''A'' ''http://x.com/1'' ''Foo Launch'') 1000)
        (mkSignal ''B'' ''http://y.com/2'' ''Foo Launch'') 2000"
proof -
  have k: "toLowerCase (normalizeTitle ''Foo Launch'')
             \<in> set (collectionKeys URL_sample (mkSignal src lnk ''Foo Launch''))" for src lnk
    using title_key [of "mkSignal src lnk ''Foo Launch''" URL_sample]
    by (simp add: signalTitle_def mkSignal_def orElse_def truthy_def)
  have c: "isAlreadyCollected URL_sample
        (markAsCollected URL_sample tzUTC freshTracker
           (mkSignal ''A'' ''http://x.com/1'' ''Foo Launch'') 1000)
        (mkSignal ''B'' ''http://y.com/2'' ''Foo Launch'') 2000"
    using k k by (rule collected_after_mark)
  have s: "source (mkSignal ''A'' ''http://x.com/1'' ''Foo Launch'')
     \<noteq> source (mkSignal ''B'' ''http://y.com/2'' ''Foo Launch'')"
    by (simp add: mkSignal_def)
  have u1: "normalizeUrl URL_sample ''http://x.com/1'' = ''http://x.com/1''"
    by code_simp
  have u2: "normalizeUrl URL_sample ''http://y.com/2'' = ''http://y.com/2''"
    by code_simp
  show ?thesis
    by (intro conjI s u1 u2 c)
qed

subsection \<open>Filtering a batch\<close>

lemma collectLoop_collected:
  assumes "today_collected (tracker_after acc) = Some m" and "obj_truthy m k"
    and "k \<in> set (collectionKeys URL S)"
  shows "filter (\<lambda>x. x = S) (newSignals (collectLoop URL tz now xs acc))
           = filter (\<lambda>x. x = S) (newSignals acc)
         \<and> filter (\<lambda>x. x = S) (skippedSignals (collectLoop URL tz now xs acc))
           = filter (\<lambda>x. x = S) (skippedSignals acc) @ filter (\<lambda>x. x = S) xs"
  using assms
proof (induction xs arbitrary: acc m)
  case Nil
  then show ?case by simp
next
  case (Cons x xs)
  show ?case
  proof (cases "isAlreadyCollected URL (tracker_after acc) x now")
    case True
    let ?acc = "acc\<lparr>skippedSignals := skippedSignals acc @ [x]\<rparr>"
    have "today_collected (tracker_after ?acc) = Some m" using Cons.prems(1) by simp
    from Cons.IH [OF this Cons.prems(2,3)] True show ?thesis by simp
  next
    case False
    have neq: "x \<noteq> S"
      using False isAlreadyCollected_today [OF Cons.prems(1) Cons.prems(3) Cons.prems(2)] by blast
    let ?acc = "acc\<lparr>newSignals := newSignals acc @ [x],
                   tracker_after := markAsCollected URL tz (tracker_after acc) x now\<rparr>"
    obtain m' where m': "today_collected (tracker_after ?acc) = Some m'" "obj_truthy m' k"
      using today_truthy_markAsCollected [of URL tz "tracker_after acc" x now] Cons.prems(1,2)
      by auto
    from Cons.IH [OF m' Cons.prems(3)] False neq show ?thesis by simp
  qed
qed

lemma filterNewSignals_first:
  assumes "\<not> isAlreadyCollected URL tr S now"
  shows "filter (\<lambda>x. x = S) (newSignals (filterNewSignals URL tz tr (S # rest) now)) = [S]
         \<and> hd (newSignals (filterNewSignals URL tz tr (S # rest) now)) = S
         \<and> filter (\<lambda>x. x = S) (skippedSignals (filterNewSignals URL tz tr (S # rest) now))
             = filter (\<lambda>x. x = S) rest"
proof -
  let ?acc = "\<lparr>newSignals = [S], skippedSignals = [],
               tracker_after = markAsCollected URL tz tr S now\<rparr>"
  have step: "filterNewSignals URL tz tr (S # rest) now = collectLoop URL tz now rest ?acc"
    using assms by (simp add: filterNewSignals_def)
  obtain m where m: "today_collected (tracker_after ?acc) = Some m"
      "obj_truthy m (toLowerCase (normalizeTitle (signalTitle S)))"
    using today_truthy_markAsCollected [of URL tz tr S now] title_key [of S URL] by auto
  have hdnew: "hd (newSignals (collectLoop URL tz now xs acc)) = hd (newSignals acc)"
    if "newSignals acc \<noteq> []" for xs acc
    using that by (induction xs arbitrary: acc) simp_all
  show ?thesis
    using collectLoop_collected [OF m title_key, where now = now and xs = rest and tz = tz]
      hdnew [of ?acc rest]
    by (simp add: step)
qed

text \<open>No signal is returned as new twice.\<close>

lemma collectLoop_once:
  "length (filter (\<lambda>x. x = S) (newSignals (collectLoop URL tz now xs acc)))
     \<le> length (filter (\<lambda>x. x = S) (newSignals acc)) + 1"
proof (induction xs arbitrary: acc)
  case Nil
  then show ?case by simp
next
  case (Cons x xs)
  show ?case
  proof (cases "isAlreadyCollected URL (tracker_after acc) x now")
    case True
    with Cons.IH [of "acc\<lparr>skippedSignals := skippedSignals acc @ [x]\<rparr>"] show ?thesis
      by simp
  next
    case False
    let ?acc = "acc\<lparr>newSignals := newSignals acc @ [x],
                   tracker_after := markAsCollected URL tz (tracker_after acc) x now\<rparr>"
    show ?thesis
    proof (cases "x = S")
      case True
      obtain m where m: "today_collected (tracker_after ?acc) = Some m"
          "obj_truthy m (toLowerCase (normalizeTitle (signalTitle S)))"
        using today_truthy_markAsCollected [of URL tz "tracker_after acc" S now]
          title_key [of S URL] True by auto
      show ?thesis
        using collectLoop_collected [OF m title_key, where now = now and xs = xs and tz = tz]
          False True by simp
    next
      case neq: False
      with Cons.IH [of ?acc] False show ?thesis by simp
    qed
  qed
qed

lemma obj_has_keys: "obj_has m k \<longleftrightarrow> k \<in> set (map fst m)"
  by (simp add: obj_has_def obj_get_def map_of_eq_None_iff)

lemma obj_has_filter: "obj_has (filter P m) k \<Longrightarrow> obj_has m k"
  by (auto simp: obj_has_keys)

lemma global_has_markAsCollected:
  "\<exists>g. global_collected (markAsCollected URL tz tr s now) = Some g
       \<and> (\<forall>k. obj_has g k \<longrightarrow>
              k \<in> set (collectionKeys URL s)
              \<or> (\<exists>g0. global_collected tr = Some g0 \<and> obj_has g0 k))"
proof (cases "global_collected tr")
  case None
  show ?thesis
    using obj_has_fold_put [of now "collectionKeys URL s" "[]"]
    by (auto simp: markAsCollected_def cleanupOldEntries_def Let_def None dest!: obj_has_filter)
next
  case (Some g0)
  show ?thesis
    using obj_has_fold_put [of now "collectionKeys URL s" g0]
    by (auto simp: markAsCollected_def cleanupOldEntries_def Let_def Some dest!: obj_has_filter)
qed

lemma scanGlobal_none: "\<forall>k \<in> set ks. \<not> obj_has g k \<Longrightarrow> \<not> scanGlobal g now ks"
  by (induction ks) (auto simp: obj_read_Own obj_has_def split: lookup.splits)

text \<open>When the scopes hold the keys \<open>seen\<close> and nothing else, a signal with plain keys is
  found exactly when one of its keys is among them.\<close>

lemma isAlreadyCollected_seen:
  assumes "today_collected tr = Some m"
    and "\<forall>k. obj_truthy m k \<longleftrightarrow> k \<in> set seen \<or> inheritedName k"
    and "global_collected tr = Some g"
    and "\<forall>k. obj_has g k \<longrightarrow> k \<in> set seen"
    and "plainKeys URL s"
  shows "isAlreadyCollected URL tr s now \<longleftrightarrow> list_ex (\<lambda>k. k \<in> set seen) (collectionKeys URL s)"
proof -
  have plain: "\<forall>k \<in> set (collectionKeys URL s). \<not> inheritedName k"
    using assms(5) by (simp add: plainKeys_def list_ex_iff)
  have today: "scanToday m (collectionKeys URL s) \<longleftrightarrow> (\<exists>k \<in> set (collectionKeys URL s). k \<in> set seen)"
    using plain assms(2) by (auto simp: scanToday_iff)
  have "\<not> scanGlobal g now (collectionKeys URL s)"
    if "\<not> (\<exists>k \<in> set (collectionKeys URL s). k \<in> set seen)"
    using that assms(4) by (intro scanGlobal_none) blast
  then show ?thesis
    using today by (auto simp: isAlreadyCollected_def Let_def assms(1,3) list_ex_iff)
qed

lemma collectLoop_firstWins:
  assumes "today_collected (tracker_after acc) = Some m"
    and "\<forall>k. obj_truthy m k \<longleftrightarrow> k \<in> set seen \<or> inheritedName k"
    and "global_collected (tracker_after acc) = Some g"
    and "\<forall>k. obj_has g k \<longrightarrow> k \<in> set seen"
    and "list_all (plainKeys URL) xs"
  shows "newSignals (collectLoop URL tz now xs acc) = newSignals acc @ fst (firstWins URL seen xs)
         \<and> skippedSignals (collectLoop URL tz now xs acc)
             = skippedSignals acc @ snd (firstWins URL seen xs)"
  using assms
proof (induction xs arbitrary: acc m g seen)
  case Nil
  then show ?case by simp
next
  case (Cons x xs)
  have px: "plainKeys URL x" and pxs: "list_all (plainKeys URL) xs"
    using Cons.prems(5) by simp_all
  note found = isAlreadyCollected_seen [OF Cons.prems(1-4) px, of now]
  show ?case
  proof (cases "isAlreadyCollected URL (tracker_after acc) x now")
    case True
    let ?acc = "acc\<lparr>skippedSignals := skippedSignals acc @ [x]\<rparr>"
    have t: "today_collected (tracker_after ?acc) = Some m"
      and g: "global_collected (tracker_after ?acc) = Some g"
      using Cons.prems(1,3) by simp_all
    from Cons.IH [OF t Cons.prems(2) g Cons.prems(4) pxs] True found show ?thesis
      by simp
  next
    case False
    let ?acc = "acc\<lparr>newSignals := newSignals acc @ [x],
                   tracker_after := markAsCollected URL tz (tracker_after acc) x now\<rparr>"
    let ?seen = "collectionKeys URL x @ seen"
    obtain m' where m': "today_collected (tracker_after ?acc) = Some m'"
      "\<forall>k. obj_truthy m' k \<longleftrightarrow> k \<in> set ?seen \<or> inheritedName k"
      using today_truthy_markAsCollected [of URL tz "tracker_after acc" x now] Cons.prems(1,2)
      by auto
    obtain g' where g': "global_collected (tracker_after ?acc) = Some g'"
      "\<forall>k. obj_has g' k \<longrightarrow> k \<in> set ?seen"
      using global_has_markAsCollected [of URL tz "tracker_after acc" x now] Cons.prems(3,4)
      by auto
    from Cons.IH [OF m' g' pxs] False found show ?thesis
      by simp
  qed
qed

text \<open>On a fresh tracker the batch is split by keys alone.\<close>

lemma filterNewSignals_fresh:
  assumes "list_all (plainKeys URL) xs"
  shows "newSignals (filterNewSignals URL tz freshTracker xs now) = fst (firstWins URL [] xs)
         \<and> skippedSignals (filterNewSignals URL tz freshTracker xs now) = snd (firstWins URL [] xs)"
proof (cases xs)
  case Nil
  then show ?thesis by (simp add: filterNewSignals_def)
next
  case (Cons x rest)
  let ?acc = "\<lparr>newSignals = [x], skippedSignals = [],
               tracker_after = markAsCollected URL tz freshTracker x now\<rparr>"
  have pxs: "list_all (plainKeys URL) rest"
    using assms Cons by simp
  have step: "filterNewSignals URL tz freshTracker (x # rest) now = collectLoop URL tz now rest ?acc"
    by (simp add: filterNewSignals_def isAlreadyCollected_fresh)
  obtain m where m: "today_collected (tracker_after ?acc) = Some m"
    "\<forall>k. obj_truthy m k \<longleftrightarrow> k \<in> set (collectionKeys URL x @ []) \<or> inheritedName k"
    using today_truthy_markAsCollected [of URL tz freshTracker x now]
    by (auto simp: freshTracker_def)
  obtain g where g: "global_collected (tracker_after ?acc) = Some g"
    "\<forall>k. obj_has g k \<longrightarrow> k \<in> set (collectionKeys URL x @ [])"
    using global_has_markAsCollected [of URL tz freshTracker x now]
    by (auto simp: freshTracker_def)
  from collectLoop_firstWins [OF m g pxs, of tz now] show ?thesis
    by (simp add: step Cons list_ex_iff)
qed

lemma collectionKeys_sample:
  "collectionKeys URL_sample (mkSignal ''A'' ''http://x.com/1'' ''Foo Launch'')
     = [''a:http://x.com/1:foo launch'', ''a:http://x.com/1'', ''foo launch'', ''a:foo launch'']"
  "collectionKeys URL_sample (mkSignal ''B'' ''http://y.com/2'' ''Foo Launch'')
     = [''b:http://y.com/2:foo launch'', ''b:http://y.com/2'', ''foo launch'', ''b:foo launch'']"
  "collectionKeys URL_sample (mkSignal ''B'' ''http://y.com/2'' ''Bar Update'')
     = [''b:http://y.com/2:bar update'', ''b:http://y.com/2'', ''bar update'', ''b:bar update'']"
  by code_simp+

lemma plainKeys_sample:
  "plainKeys URL_sample (mkSignal ''A'' ''http://x.com/1'' ''Foo Launch'')"
  "plainKeys URL_sample (mkSignal ''B'' ''http://y.com/2'' ''Foo Launch'')"
  "plainKeys URL_sample (mkSignal ''B'' ''http://y.com/2'' ''Bar Update'')"
  unfolding plainKeys_def collectionKeys_sample by code_simp+

text \<open>
  C5 (as amended).  On a fresh collection tracker, \<open>filterNewSignals([S])\<close> returns S as new
  the first time and as skipped the second time, and \<open>filterNewSignals([S, S])\<close> returns
  the first occurrence as new and the second as skipped.  In any batch, on any tracker,
  at most one occurrence of a signal is returned as new; when the batch starts with a
  signal S not yet collected, S is returned as new once, at the head, and every further
  occurrence of S in the batch is returned as skipped.  The first occurrence of a signal
  is not always the one returned as new: on a fresh tracker a signal is new exactly when
  none of its four keys is a key of a signal returned as new before it in the batch, and
  is skipped otherwise (for batches in which no key is a name that objects inherit).
\<close>

theorem idempotent_reingestion:
  "newSignals (filterNewSignals URL tz freshTracker [S] now1) = [S]
   \<and> skippedSignals (filterNewSignals URL tz freshTracker [S] now1) = []
   \<and> newSignals (filterNewSignals URL tz
         (tracker_after (filterNewSignals URL tz freshTracker [S] now1)) [S] now2) = []
   \<and> skippedSignals (filterNewSignals URL tz
         (tracker_after (filterNewSignals URL tz freshTracker [S] now1)) [S] now2) = [S]
   \<and> newSignals (filterNewSignals URL tz freshTracker [S, S] now1) = [S]
   \<and> skippedSignals (filterNewSignals URL tz freshTracker [S, S] now1) = [S]
   \<and> length (filter (\<lambda>x. x = S) (newSignals (filterNewSignals URL tz tr xs now1))) \<le> 1
   \<and> (\<not> isAlreadyCollected URL tr S now1 \<longrightarrow>
        filter (\<lambda>x. x = S) (newSignals (filterNewSignals URL tz tr (S # rest) now1)) = [S]
        \<and> hd (newSignals (filterNewSignals URL tz tr (S # rest) now1)) = S
        \<and> filter (\<lambda>x. x = S) (skippedSignals (filterNewSignals URL tz tr (S # rest) now1))
            = filter (\<lambda>x. x = S) rest)
   \<and> (list_all (plainKeys URL) xs \<longrightarrow>
        newSignals (filterNewSignals URL tz freshTracker xs now1) = fst (firstWins URL [] xs)
        \<and> skippedSignals (filterNewSignals URL tz freshTracker xs now1)
            = snd (firstWins URL [] xs))"
proof -
  have again: "isAlreadyCollected URL (markAsCollected URL tz tr' S now1) S now'" for tr' now'
    using title_key title_key by (rule collected_after_mark)
  have first: "filterNewSignals URL tz freshTracker [S] now1 =
                 \<lparr>newSignals = [S], skippedSignals = [],
                  tracker_after = markAsCollected URL tz freshTracker S now1\<rparr>"
    by (simp add: filterNewSignals_def isAlreadyCollected_fresh)
  have second: "filterNewSignals URL tz (markAsCollected URL tz freshTracker S now1) [S] now2 =
                 \<lparr>newSignals = [], skippedSignals = [S],
                  tracker_after = markAsCollected URL tz freshTracker S now1\<rparr>"
    by (simp add: filterNewSignals_def again)
  have batch: "filterNewSignals URL tz freshTracker [S, S] now1 =
                 \<lparr>newSignals = [S], skippedSignals = [S],
                  tracker_after = markAsCollected URL tz freshTracker S now1\<rparr>"
    by (simp add: filterNewSignals_def isAlreadyCollected_fresh again)
  have once: "length (filter (\<lambda>x. x = S) (newSignals (filterNewSignals URL tz tr xs now1))) \<le> 1"
    using collectLoop_once [of S URL tz now1 xs
        "\<lparr>newSignals = [], skippedSignals = [], tracker_after = tr\<rparr>"]
    by (simp add: filterNewSignals_def)
  show ?thesis
    using filterNewSignals_first [of URL tr S now1 tz rest]
      filterNewSignals_fresh [of URL xs tz now1] once
    by (simp add: first second batch)
qed

theorem idempotent_reingestion_witness:
  "\<not> isAlreadyCollected URL_sample freshTracker (mkSignal ''A'' ''http://x.com/1'' ''Foo Launch'') 1000
   \<and> list_all (plainKeys URL_sample)
        [mkSignal ''A'' ''http://x.com/1'' ''Foo Launch'',
         mkSignal ''B'' ''http://y.com/2'' ''Bar Update'',
         mkSignal ''A'' ''http://x.com/1'' ''Foo Launch'']
   \<and> newSignals (filterNewSignals URL_sample tzUTC freshTracker
        [mkSignal ''A'' ''http://x.com/1'' ''Foo Launch'',
         mkSignal ''B'' ''http://y.com/2'' ''Bar Update'',
         mkSignal ''A'' ''http://x.com/1'' ''Foo Launch''] 1000)
     = [mkSignal ''A'' ''http://x.com/1'' ''Foo Launch'',
        mkSignal ''B'' ''http://y.com/2'' ''Bar Update'']
   \<and> skippedSignals (filterNewSignals URL_sample tzUTC freshTracker
        [mkSignal ''A'' ''http://x.com/1'' ''Foo Launch'',
         mkSignal ''B'' ''http://y.com/2'' ''Bar Update'',
         mkSignal ''A'' ''http://x.com/1'' ''Foo Launch''] 1000)
     = [mkSignal ''A'' ''http://x.com/1'' ''Foo Launch'']
   \<and> filter (\<lambda>x. x = mkSignal ''A'' ''http://x.com/1'' ''Foo Launch'')
        (skippedSignals (filterNewSignals URL_sample tzUTC freshTracker
           [mkSignal ''A'' ''http://x.com/1'' ''Foo Launch'',
            mkSignal ''B'' ''http://y.com/2'' ''Bar Update'',
            mkSignal ''A'' ''http://x.com/1'' ''Foo Launch''] 1000))
     = filter (\<lambda>x. x = mkSignal ''A'' ''http://x.com/1'' ''Foo Launch'')
         [mkSignal ''B'' ''http://y.com/2'' ''Bar Update'',
          mkSignal ''A'' ''http://x.com/1'' ''Foo Launch'']"
proof -
  let ?A = "mkSignal ''A'' ''http://x.com/1'' ''Foo Launch''"
  let ?B = "mkSignal ''B'' ''http://y.com/2'' ''Bar Update''"
  note w = idempotent_reingestion [of URL_sample tzUTC ?A 1000 2000 freshTracker "[?A, ?B, ?A]"
      "[?B, ?A]"]
  note w8 = w [THEN conjunct2, THEN conjunct2, THEN conjunct2, THEN conjunct2, THEN conjunct2,
      THEN conjunct2, THEN conjunct2, THEN conjunct1]
  note w9 = w [THEN conjunct2, THEN conjunct2, THEN conjunct2, THEN conjunct2, THEN conjunct2,
      THEN conjunct2, THEN conjunct2, THEN conjunct2]
  have f: "\<not> isAlreadyCollected URL_sample freshTracker ?A 1000"
    by (rule isAlreadyCollected_fresh)
  have p: "list_all (plainKeys URL_sample) [?A, ?B, ?A]"
    by (simp add: plainKeys_sample)
  have fw: "firstWins URL_sample [] [?A, ?B, ?A] = ([?A, ?B], [?A])"
    by (simp add: collectionKeys_sample)
  have n: "newSignals (filterNewSignals URL_sample tzUTC freshTracker [?A, ?B, ?A] 1000) = [?A, ?B]"
    using w9 [THEN mp, OF p, THEN conjunct1] by (simp only: fw fst_conv)
  have s: "skippedSignals (filterNewSignals URL_sample tzUTC freshTracker [?A, ?B, ?A] 1000) = [?A]"
    using w9 [THEN mp, OF p, THEN conjunct2] by (simp only: fw snd_conv)
  have h: "filter (\<lambda>x. x = ?A)
        (skippedSignals (filterNewSignals URL_sample tzUTC freshTracker [?A, ?B, ?A] 1000))
     = filter (\<lambda>x. x = ?A) [?B, ?A]"
    by (rule w8 [THEN mp, OF f, THEN conjunct2, THEN conjunct2])
  show ?thesis
    by (intro conjI f p n s h)
qed

text \<open>The second half of the claim fails for a batch in which a signal shares the
  title of an earlier one: both occurrences of the signal are skipped, the first one
  included.\<close>

theorem first_occurrence_counterexample:
  "newSignals (filterNewSignals URL_sample tzUTC freshTracker
      [mkSignal ''A'' ''http://x.com/1'' ''Foo Launch'',
       mkSignal ''B'' ''http://y.com/2'' ''Foo Launch'',
       mkSignal ''B'' ''http://y.com/2'' ''Foo Launch''] 1000)
     = [mkSignal ''A'' ''http://x.com/1'' ''Foo Launch'']
   \<and> skippedSignals (filterNewSignals URL_sample tzUTC freshTracker
      [mkSignal ''A'' ''http://x.com/1'' ''Foo Launch'',
       mkSignal ''B'' ''http://y.com/2'' ''Foo Launch'',
       mkSignal ''B'' ''http://y.com/2'' ''Foo Launch''] 1000)
     = [mkSignal ''B'' ''http://y.com/2'' ''Foo Launch'',
        mkSignal ''B'' ''http://y.com/2'' ''Foo Launch'']
   \<and> mkSignal ''B'' ''http://y.com/2'' ''Foo Launch''
        \<notin> set [mkSignal ''A'' ''http://x.com/1'' ''Foo Launch'']"
proof -
  let ?A = "mkSignal ''A'' ''http://x.com/1'' ''Foo Launch''"
  let ?B = "mkSignal ''B'' ''http://y.com/2'' ''Foo Launch''"
  have p: "list_all (plainKeys URL_sample) [?A, ?B, ?B]"
    by (simp add: plainKeys_sample)
  have fw: "firstWins URL_sample [] [?A, ?B, ?B] = ([?A], [?B, ?B])"
    by (simp add: collectionKeys_sample)
  have ne: "?B \<notin> set [?A]"
    by (simp add: mkSignal_def)
  show ?thesis
    using filterNewSignals_fresh [OF p, of tzUTC 1000] ne by (simp only: fw fst_conv snd_conv simp_thms)
qed

subsection \<open>Retention\<close>

lemma fold_put_keeps:
  "(k, v) \<in> set m \<Longrightarrow> k \<notin> set ks \<Longrightarrow> (k, v) \<in> set (fold (\<lambda>k m. obj_put m k w) ks m)"
  by (induction ks arbitrary: m) (auto intro: obj_put_keeps)

lemma obj_get_fold_put:
  "obj_has m k' \<Longrightarrow>
   obj_get (fold (\<lambda>k m. obj_put m k v) ks m) k' = (if k' \<in> set ks then Some v else obj_get m k')"
proof (induction ks arbitrary: m)
  case Nil
  then show ?case by simp
next
  case (Cons a ks)
  have "obj_has (obj_put m a v) k'"
    using Cons.prems by (simp add: obj_has_put)
  from Cons.IH [OF this] Cons.prems show ?case
    by (auto simp: obj_get_put)
qed

lemma keys_obj_replace: "map fst (obj_replace m k v) = map fst m"
  by (induction m) auto

lemma keys_obj_insert_index: "set (map fst (obj_insert_index m k v)) = insert k (set (map fst m))"
  by (induction m) auto

lemma distinct_obj_insert_index:
  "k \<notin> set (map fst m) \<Longrightarrow> distinct (map fst m) \<Longrightarrow> distinct (map fst (obj_insert_index m k v))"
proof (induction m)
  case Nil
  then show ?case by simp
next
  case (Cons p ps)
  then have "fst p \<notin> set (map fst (obj_insert_index ps k v))"
    by (simp only: keys_obj_insert_index) auto
  with Cons show ?case by auto
qed

lemma distinct_obj_set: "distinct (map fst m) \<Longrightarrow> distinct (map fst (obj_set m k v))"
  by (simp add: obj_set_def keys_obj_replace distinct_obj_insert_index obj_has_keys)

lemma distinct_obj_put: "distinct (map fst m) \<Longrightarrow> distinct (map fst (obj_put m k v))"
  by (simp add: obj_put_def distinct_obj_set)

lemma distinct_fold_put:
  "distinct (map fst m) \<Longrightarrow> distinct (map fst (fold (\<lambda>k m. obj_put m k w) ks m))"
  by (induction ks arbitrary: m) (simp_all add: distinct_obj_put)

lemma obj_get_filter_keys:
  "obj_get (filter (\<lambda>(k, ts). k \<notin> D) m) k' = (if k' \<in> D then None else obj_get m k')"
  by (induction m) (auto simp: obj_get_def)

lemma obj_get_distinct:
  "distinct (map fst m) \<Longrightarrow> obj_get m k = Some v \<Longrightarrow> (k, v') \<in> set m \<Longrightarrow> v' = v"
  by (simp add: obj_get_def)

lemma global_markAsCollected:
  "global_collected (markAsCollected URL tz tr s now) =
     Some (filter (\<lambda>(k, ts). k \<notin> set (map fst (filter (\<lambda>(k, ts). ts < thirtyDaysAgo tz now)
              (fold (\<lambda>k m. obj_put m k now) (collectionKeys URL s)
                 (case global_collected tr of None \<Rightarrow> [] | Some m \<Rightarrow> m)))))
       (fold (\<lambda>k m. obj_put m k now) (collectionKeys URL s)
          (case global_collected tr of None \<Rightarrow> [] | Some m \<Rightarrow> m)))"
  by (simp add: markAsCollected_def cleanupOldEntries_def Let_def)

lemma pruned_no_old:
  "p \<in> set (filter (\<lambda>(k, ts). k \<notin> set (map fst (filter (\<lambda>(k, ts). ts < cutoff) m))) m)
   \<Longrightarrow> \<not> snd p < cutoff"
  by (cases p) force

text \<open>The cutoff lies 30 times 24 hours back, shifted by the difference between the
  zone's offset now and its offset at the local time thirty calendar days ago.\<close>

lemma thirtyDaysAgo_shift:
  "thirtyDaysAgo tz now =
     now - 30 * msPerDay
       + (utcOffset tz now - localOffset tz (now + utcOffset tz now - 30 * msPerDay))"
  by (simp add: thirtyDaysAgo_def Let_def)

text \<open>
  C9 (as amended).  The cutoff of the pruning is the instant thirty calendar days before
  the current time at the same local time of day: 30 times 24 hours back when the zone's
  offset from UTC is the same at both instants, and otherwise shifted by the difference
  of the two offsets.  If the global scope holds an entry whose timestamp is before that
  cutoff, then after \<open>markAsCollected\<close> that entry is no longer in the global scope, and no
  entry that old is; the pruning is part of \<open>markAsCollected\<close> itself.  An entry 31 days
  old is before the cutoff whenever the two offsets differ by less than a day.  The key
  of the pruned entry is absent afterwards unless it is one of the four keys of the
  signal just marked, in which case it now carries the current time.
\<close>

theorem retention_prune:
  assumes "global_collected tr = Some g" and "(k, ts) \<in> set g" and "ts < thirtyDaysAgo tz now"
  shows "\<exists>g'. global_collected (markAsCollected URL tz tr s now) = Some g'
           \<and> (k, ts) \<notin> set g'
           \<and> (\<forall>p \<in> set g'. \<not> snd p < thirtyDaysAgo tz now)
           \<and> (k \<notin> set (collectionKeys URL s) \<longrightarrow> \<not> obj_has g' k)
           \<and> (k \<in> set (collectionKeys URL s) \<and> distinct (map fst g)
                \<and> thirtyDaysAgo tz now \<le> now \<longrightarrow> obj_get g' k = Some now)
           \<and> thirtyDaysAgo tz now =
               now - 30 * msPerDay
                 + (utcOffset tz now - localOffset tz (now + utcOffset tz now - 30 * msPerDay))
           \<and> (localOffset tz (now + utcOffset tz now - 30 * msPerDay) = utcOffset tz now
                \<longrightarrow> thirtyDaysAgo tz now = now - 30 * msPerDay)
           \<and> (ts' \<le> now - 31 * msPerDay
                \<and> localOffset tz (now + utcOffset tz now - 30 * msPerDay) - utcOffset tz now
                    < msPerDay
                \<longrightarrow> ts' < thirtyDaysAgo tz now)"
proof -
  define cutoff where "cutoff = thirtyDaysAgo tz now"
  define g1 where "g1 = fold (\<lambda>k m. obj_put m k now) (collectionKeys URL s) g"
  define D where "D = set (map fst (filter (\<lambda>(k, ts). ts < cutoff) g1))"
  define g' where "g' = filter (\<lambda>(k, ts). k \<notin> D) g1"
  have g': "global_collected (markAsCollected URL tz tr s now) = Some g'"
    by (simp add: global_markAsCollected assms(1) g'_def D_def g1_def cutoff_def)
  have noold: "\<forall>p \<in> set g'. \<not> snd p < cutoff"
    unfolding g'_def D_def using pruned_no_old by blast
  then have gone: "(k, ts) \<notin> set g'"
    using assms(3) by (auto simp: cutoff_def)
  have own: "obj_has g k"
    using assms(2) by (rule obj_has_member)
  have absent: "\<not> obj_has g' k" if "k \<notin> set (collectionKeys URL s)"
  proof -
    have "(k, ts) \<in> set g1"
      unfolding g1_def using assms(2) that by (rule fold_put_keeps)
    then have "k \<in> D"
      unfolding D_def using assms(3) by (force simp: cutoff_def)
    then show ?thesis
      by (simp add: g'_def obj_has_def obj_get_filter_keys)
  qed
  have fresh: "obj_get g' k = Some now"
    if "k \<in> set (collectionKeys URL s) \<and> distinct (map fst g) \<and> cutoff \<le> now"
  proof -
    have d: "distinct (map fst g1)"
      unfolding g1_def using that by (intro distinct_fold_put) simp
    have n: "obj_get g1 k = Some now"
      unfolding g1_def using that by (simp add: obj_get_fold_put [OF own])
    have "k \<notin> D"
    proof
      assume "k \<in> D"
      then obtain t where t: "(k, t) \<in> set g1" "t < cutoff"
        unfolding D_def by auto
      from obj_get_distinct [OF d n t(1)] t(2) that show False
        by simp
    qed
    then show ?thesis
      by (simp add: g'_def obj_get_filter_keys n)
  qed
  note shift = thirtyDaysAgo_shift [of tz now]
  have same: "thirtyDaysAgo tz now = now - 30 * msPerDay"
    if "localOffset tz (now + utcOffset tz now - 30 * msPerDay) = utcOffset tz now"
    using shift that by simp
  have month: "ts' < thirtyDaysAgo tz now"
    if "ts' \<le> now - 31 * msPerDay
        \<and> localOffset tz (now + utcOffset tz now - 30 * msPerDay) - utcOffset tz now < msPerDay"
    using shift that by simp
  show ?thesis
    using g' gone noold absent fresh shift same month unfolding cutoff_def by blast
qed

theorem retention_prune_witness:
  "global_collected agedTracker = Some [(''old entry'', 0)]
   \<and> (''old entry'', 0) \<in> set [(''old entry'', 0 :: int)]
   \<and> 0 < thirtyDaysAgo tzBerlin2026 1793707200000
   \<and> ''old entry'' \<notin> set (collectionKeys URL_sample (mkSignal ''A'' ''http://x.com/1'' ''Foo Launch''))
   \<and> global_collected (markAsCollected URL_sample tzBerlin2026 agedTracker
        (mkSignal ''A'' ''http://x.com/1'' ''Foo Launch'') 1793707200000)
       = Some [(''a:http://x.com/1:foo launch'', 1793707200000),
               (''a:http://x.com/1'', 1793707200000),
               (''foo launch'', 1793707200000),
               (''a:foo launch'', 1793707200000)]
   \<and> \<not> obj_has [(''a:http://x.com/1:foo launch'', 1793707200000 :: int),
               (''a:http://x.com/1'', 1793707200000),
               (''foo launch'', 1793707200000),
               (''a:foo launch'', 1793707200000)] ''old entry''"
proof -
  let ?A = "mkSignal ''A'' ''http://x.com/1'' ''Foo Launch''"
  let ?g = "[(''a:http://x.com/1:foo launch'', 1793707200000 :: int),
               (''a:http://x.com/1'', 1793707200000),
               (''foo launch'', 1793707200000),
               (''a:foo launch'', 1793707200000)]"
  have a: "global_collected agedTracker = Some [(''old entry'', 0)]"
    by (simp add: agedTracker_def)
  have m: "(''old entry'', 0) \<in> set [(''old entry'', 0 :: int)]"
    by simp
  have c: "thirtyDaysAgo tzBerlin2026 1793707200000 = 1791111600000"
    by (simp add: thirtyDaysAgo_def tzBerlin2026_def msPerDay_def Let_def)
  have t: "0 < thirtyDaysAgo tzBerlin2026 1793707200000"
    by (simp add: c)
  have k: "''old entry'' \<notin> set (collectionKeys URL_sample ?A)"
    by (simp add: collectionKeys_sample)
  have e: "global_collected (markAsCollected URL_sample tzBerlin2026 agedTracker ?A 1793707200000)
             = Some ?g"
    by (simp add: global_markAsCollected c collectionKeys_sample agedTracker_def obj_put_def
        obj_set_def obj_has_def obj_get_def protoName_def isArrayIndex_def isDigit_def code_def)
  obtain g' where g': "global_collected (markAsCollected URL_sample tzBerlin2026 agedTracker
          ?A 1793707200000) = Some g'"
      "''old entry'' \<notin> set (collectionKeys URL_sample ?A) \<longrightarrow> \<not> obj_has g' ''old entry''"
    using retention_prune [OF a m t, of URL_sample ?A] by blast
  from g'(1) e have "g' = ?g" by simp
  with g'(2) k have n: "\<not> obj_has ?g ''old entry''" by blast
  show ?thesis
    by (intro conjI a m t k e n)
qed

text \<open>The claim fails where the offset changes inside the thirty days.  In the zone
  \<open>Europe/Berlin\<close> on 3 November 2026 at 12:00 UTC the cutoff is 4 October 13:00 local
  summer time, 30 days and one hour back: an entry 30 days and 30 minutes old is still
  in the global scope after \<open>markAsCollected\<close>.\<close>

theorem retention_prune_counterexample:
  "global_collected octoberTracker = Some [(''old entry'', 1791113400000)]
   \<and> (1791113400000 :: int) < 1793707200000 - 30 * msPerDay
   \<and> global_collected (markAsCollected URL_sample tzBerlin2026 octoberTracker
        (mkSignal ''A'' ''http://x.com/1'' ''Foo Launch'') 1793707200000)
       = Some [(''old entry'', 1791113400000),
               (''a:http://x.com/1:foo launch'', 1793707200000),
               (''a:http://x.com/1'', 1793707200000),
               (''foo launch'', 1793707200000),
               (''a:foo launch'', 1793707200000)]"
proof -
  let ?A = "mkSignal ''A'' ''http://x.com/1'' ''Foo Launch''"
  have a: "global_collected octoberTracker = Some [(''old entry'', 1791113400000)]"
    by (simp add: octoberTracker_def msPerDay_def)
  have o: "(1791113400000 :: int) < 1793707200000 - 30 * msPerDay"
    by (simp add: msPerDay_def)
  have c: "thirtyDaysAgo tzBerlin2026 1793707200000 = 1791111600000"
    by (simp add: thirtyDaysAgo_def tzBerlin2026_def msPerDay_def Let_def)
  have e: "global_collected (markAsCollected URL_sample tzBerlin2026 octoberTracker ?A 1793707200000)
       = Some [(''old entry'', 1791113400000),
               (''a:http://x.com/1:foo launch'', 1793707200000),
               (''a:http://x.com/1'', 1793707200000),
               (''foo launch'', 1793707200000),
               (''a:foo launch'', 1793707200000)]"
    by (simp add: global_markAsCollected c collectionKeys_sample a obj_put_def
        obj_set_def obj_has_def obj_get_def protoName_def isArrayIndex_def isDigit_def code_def)
  show ?thesis
    by (intro conjI a o e)
qed

subsection \<open>URL normalisation\<close>

lemma fold_deleteParam:
  "protocol (fold deleteParam ps p) = protocol p \<and> host (fold deleteParam ps p) = host p
   \<and> pathname (fold deleteParam ps p) = pathname p"
  by (induction ps arbitrary: p) (simp_all add: deleteParam_def)

lemma normalizeUrl_empty: "normalizeUrl URL [] = []"
  by (simp add: normalizeUrl_def)

lemma normalizeUrl_malformed: "URL u = None \<Longrightarrow> normalizeUrl URL u = u"
  by (simp add: normalizeUrl_def)

lemma normalizeUrl_parsed:
  "u \<noteq> [] \<Longrightarrow> URL u = Some p \<Longrightarrow>
   normalizeUrl URL u =
     protocol p @ ''//'' @ host p
       @ (if pathname p \<noteq> [] \<and> last (pathname p) = CHR ''/'' \<and> length (pathname p) > 1
          then butlast (pathname p) else pathname p)"
  by (simp add: normalizeUrl_def Let_def fold_deleteParam)

text \<open>
  C4, at the input \<open>http://x.com/1?id=5\<close>.  The parameter \<open>id\<close> is not on the list of
  tracking parameters, and the parser returns it among the search parameters; the
  claim has it left in place, and \<open>normalizeUrl\<close> returns the address without any query:
  the result is assembled from protocol, host and path alone.
\<close>

theorem normalizeUrl_drops_query:
  "''id'' \<notin> set paramsToRemove
   \<and> URL_sample ''http://x.com/1?id=5''
       = Some \<lparr>protocol = ''http:'', host = ''x.com'', pathname = ''/1'',
               searchParams = [(''id'', ''5'')]\<rparr>
   \<and> normalizeUrl URL_sample ''http://x.com/1?id=5'' = ''http://x.com/1''"
proof -
  have p: "''id'' \<notin> set paramsToRemove"
    by (simp add: paramsToRemove_def)
  have u: "URL_sample ''http://x.com/1?id=5''
       = Some \<lparr>protocol = ''http:'', host = ''x.com'', pathname = ''/1'',
               searchParams = [(''id'', ''5'')]\<rparr>"
    by (simp add: URL_sample_def)
  have n: "''http://x.com/1?id=5'' \<noteq> []"
    by simp
  have "normalizeUrl URL_sample ''http://x.com/1?id=5'' = ''http://x.com/1''"
    using normalizeUrl_parsed [where URL = URL_sample, OF n u] by simp
  with p u show ?thesis by (intro conjI)
qed

end
